theory Spec2Isabelle
  imports Complex_Main "HOL-Library.Word"
begin

section \<open>Data model of \<open>KinectController\<close>\<close>

text \<open>
  The controller of \<^verbatim>\<open>KinectController.cpp\<close> and \<^verbatim>\<open>KinectController.h\<close>.
  C++ \<^verbatim>\<open>int\<close> members are 32-bit words read as two's complement (the comparisons of the
  source are the signed ones, \<open><s\<close>; an addition that overflows wraps around here, where
  the language leaves it undefined), \<^verbatim>\<open>XnDepthPixel\<close> and \<^verbatim>\<open>XnLabel\<close> are unsigned
  16-bit words, a matrix element of type \<^verbatim>\<open>CV_8UC1\<close> is an 8-bit word.
\<close>

type_synonym XnStatus = "32 word"

definition XN_STATUS_OK :: XnStatus where
  "XN_STATUS_OK = 0"

definition COLOR_RANGE :: "32 word" where
  "COLOR_RANGE = 255"

text \<open>
  Modelled from the spec: the macros \<^verbatim>\<open>XN_VGA_X_RES\<close> and \<^verbatim>\<open>XN_VGA_Y_RES\<close> behind
  \<^verbatim>\<open>X_RES\<close> and \<^verbatim>\<open>Y_RES\<close> are declared in the sensor library; the frame is 640 by 480.
\<close>

definition X_RES :: nat where
  "X_RES = 640"

definition Y_RES :: nat where
  "Y_RES = 480"

text \<open>
  The floating-point unit. \<^verbatim>\<open>colorByDepth\<close> is a \<^verbatim>\<open>float\<close>; the source converts
  integers to it, divides, multiplies, negates and narrows the result to \<^verbatim>\<open>uchar\<close>.
  What these operations compute depends on the platform (the narrowing of a negative
  value is not fixed by the language), so they are a parameter of the model and every
  theorem below holds for each choice of them.
\<close>

record 'f fpu =
  int_to_float :: "32 word \<Rightarrow> 'f"
  u16_to_float :: "16 word \<Rightarrow> 'f"
  fdiv :: "'f \<Rightarrow> 'f \<Rightarrow> 'f"
  fmul :: "'f \<Rightarrow> 'f \<Rightarrow> 'f"
  fneg :: "'f \<Rightarrow> 'f"
  float_to_uchar :: "'f \<Rightarrow> 8 word"

text \<open>
  One instance for concrete evaluation: exact rational arithmetic, narrowing by
  truncation towards zero followed by wrap-around modulo 256. Rounding, infinities and
  NaN are not part of it (a division by zero gives 0 here).
\<close>

definition trunc_rat :: "rat \<Rightarrow> int" where
  "trunc_rat q = (if q < 0 then - \<lfloor>- q\<rfloor> else \<lfloor>q\<rfloor>)"

definition exact_fpu :: "rat fpu" where
  "exact_fpu = \<lparr>int_to_float = (\<lambda>w. of_int (sint w)),
                 u16_to_float = (\<lambda>w. of_nat (unat w)),
                 fdiv = (\<lambda>a b. a / b),
                 fmul = (\<lambda>a b. a * b),
                 fneg = (\<lambda>a. - a),
                 float_to_uchar = (\<lambda>q. word_of_int (trunc_rat q))\<rparr>"

text \<open>
  \<^verbatim>\<open>cv::Mat\<close> of type \<^verbatim>\<open>CV_8UC1\<close>: the dimensions and the continuous element buffer,
  row after row.
\<close>

record Mat =
  rows :: nat
  cols :: nat
  data :: "8 word list"

definition Mat_empty :: Mat where
  "Mat_empty = \<lparr>rows = 0, cols = 0, data = []\<rparr>"

definition zeros :: "nat \<Rightarrow> nat \<Rightarrow> Mat" where
  "zeros r c = \<lparr>rows = r, cols = c, data = replicate (r * c) 0\<rparr>"

text \<open>
  \<^verbatim>\<open>cv::flip(src, dst, flipCode)\<close> of the image library: \<open>0\<close> flips around the x-axis,
  a positive code around the y-axis, a negative code around both. The destination gets
  the dimensions of the source.
\<close>

definition flip_index :: "Mat \<Rightarrow> int \<Rightarrow> nat \<Rightarrow> nat" where
  "flip_index src flipCode i =
     (let r = i div cols src; c = i mod cols src;
          r' = (if flipCode \<le> 0 then rows src - 1 - r else r);
          c' = (if flipCode \<noteq> 0 then cols src - 1 - c else c)
      in r' * cols src + c')"

definition flip :: "Mat \<Rightarrow> int \<Rightarrow> Mat" where
  "flip src flipCode =
     \<lparr>rows = rows src, cols = cols src,
      data = map (\<lambda>i. data src ! flip_index src flipCode i) [0..<rows src * cols src]\<rparr>"

text \<open>
  The sensor library is an external service. A device is what it answers: the status of
  the \<open>n\<close>-th call whose status the controller assigns to \<^verbatim>\<open>xnRetVal\<close>, and the frame
  (depth map and label map, read through \<^verbatim>\<open>pDepthMap\<close> and \<^verbatim>\<open>pLabels\<close>) that is
  current after that call. The calls whose status the source drops
  (\<^verbatim>\<open>RegisterUserCallbacks\<close>, \<^verbatim>\<open>GetMetaData\<close>, \<^verbatim>\<open>GetUserPixels\<close>, \<^verbatim>\<open>GetUsers\<close>) are
  not counted.
\<close>

record frame =
  pDepthMap :: "nat \<Rightarrow> 16 word"
  pLabels :: "nat \<Rightarrow> 16 word"

record device =
  sdk :: "nat \<Rightarrow> XnStatus"
  cam :: "nat \<Rightarrow> frame"

text \<open>
  The members of the class. \<open>xnContext\<close> stands for the library's context object and
  counts the status-returning calls issued so far; \<open>nuiMotor\<close> holds the position last
  sent to the motor. \<open>resetCount\<close> is not a member of the class: it counts the calls of
  \<^verbatim>\<open>reset()\<close>, so that statements on how often a reset occurred can be written.
\<close>

record 'f KinectController =
  xnContext :: nat
  xnRetVal :: XnStatus
  maxUsers :: "32 word"
  maxIterate :: "32 word"
  iterations :: "32 word"
  depthThresh :: "32 word"
  colorByDepth :: 'f
  depthMatrix :: Mat
  usersMatrix :: Mat
  nuiMotor :: "32 word"
  initAngle :: "32 word"
  nuiAngle :: "32 word"
  resetCount :: nat

datatype error = BadAlloc

section \<open>Operations\<close>

text \<open>A call of the sensor library whose status is assigned to \<^verbatim>\<open>xnRetVal\<close>.\<close>

definition sdk_call :: "device \<Rightarrow> 'f KinectController \<Rightarrow> 'f KinectController" where
  "sdk_call dev s = s\<lparr>xnRetVal := sdk dev (xnContext s), xnContext := Suc (xnContext s)\<rparr>"

text \<open>
  \<^verbatim>\<open>initDepthControl\<close>: \<^verbatim>\<open>Context.Init\<close>, \<^verbatim>\<open>DepthGenerator.Create\<close>,
  \<^verbatim>\<open>SetMapOutputMode\<close>, \<^verbatim>\<open>UserGenerator.Create\<close> and \<^verbatim>\<open>StartGeneratingAll\<close>, each
  followed by \<^verbatim>\<open>CHECK_RC\<close>, which returns \<^verbatim>\<open>xnRetVal\<close> at once when it is not OK.
\<close>

definition initDepthControl ::
  "device \<Rightarrow> 'f KinectController \<Rightarrow> XnStatus \<times> 'f KinectController" where
  "initDepthControl dev s =
     (let s0 = s\<lparr>xnRetVal := XN_STATUS_OK\<rparr>;
          s1 = sdk_call dev s0
      in if xnRetVal s1 \<noteq> XN_STATUS_OK then (xnRetVal s1, s1) else
      let s2 = sdk_call dev s1
      in if xnRetVal s2 \<noteq> XN_STATUS_OK then (xnRetVal s2, s2) else
      let s3 = sdk_call dev s2
      in if xnRetVal s3 \<noteq> XN_STATUS_OK then (xnRetVal s3, s3) else
      let s4 = sdk_call dev s3
      in if xnRetVal s4 \<noteq> XN_STATUS_OK then (xnRetVal s4, s4) else
      let s5 = sdk_call dev s4
      in if xnRetVal s5 \<noteq> XN_STATUS_OK then (xnRetVal s5, s5) else
      (xnRetVal s5, s5))"

definition initMotorControl :: "'f KinectController \<Rightarrow> 'f KinectController" where
  "initMotorControl s = s\<lparr>nuiMotor := nuiAngle s\<rparr>"

definition init ::
  "'f fpu \<Rightarrow> device \<Rightarrow> 'f KinectController \<Rightarrow> XnStatus \<times> 'f KinectController" where
  "init ops dev s =
     (let s1 = s\<lparr>colorByDepth :=
                   fdiv ops (int_to_float ops COLOR_RANGE) (int_to_float ops (depthThresh s)),
                 iterations := 0,
                 depthMatrix := zeros 480 640,
                 usersMatrix := zeros 480 640\<rparr>;
          s2 = snd (initDepthControl dev s1)
      in if xnRetVal s2 \<noteq> XN_STATUS_OK then (xnRetVal s2, s2) else
      let s3 = initMotorControl s2
      in (xnRetVal s3, s3))"

text \<open>The clamp of the tilt angle, as both the constructor and \<^verbatim>\<open>setMotorAngle\<close> write it.\<close>

definition clampAngle :: "32 word \<Rightarrow> 32 word" where
  "clampAngle a = (if 15000 <s a then 15000 else if a <s - 15000 then - 15000 else a)"

text \<open>
  The constructor. The members it does not assign are written by \<^verbatim>\<open>init()\<close> before
  anything reads them; they start here from fixed placeholder values.
\<close>

definition new_KinectController ::
  "'f fpu \<Rightarrow> device \<Rightarrow> 32 word \<Rightarrow> 32 word \<Rightarrow> 32 word \<Rightarrow> 32 word \<Rightarrow> 'f KinectController" where
  "new_KinectController ops dev userCount iterationCount depthValue motorAngle =
     snd (init ops dev
       \<lparr>xnContext = 0, xnRetVal = XN_STATUS_OK,
        maxUsers = userCount, maxIterate = iterationCount, iterations = 0,
        depthThresh = depthValue, colorByDepth = int_to_float ops 0,
        depthMatrix = Mat_empty, usersMatrix = Mat_empty,
        nuiMotor = 0, initAngle = clampAngle motorAngle, nuiAngle = clampAngle motorAngle,
        resetCount = 0\<rparr>)"

text \<open>The body of the two pixel loops of \<^verbatim>\<open>update()\<close>, at row \<open>y\<close> and column \<open>x\<close>.\<close>

definition pixel ::
  "'f fpu \<Rightarrow> 'f KinectController \<Rightarrow> frame \<Rightarrow> nat \<Rightarrow> nat \<Rightarrow> Mat \<times> Mat \<Rightarrow> Mat \<times> Mat" where
  "pixel ops s f y x m =
     (let toflip_depthMatrix = fst m; toflip_usersMatrix = snd m;
          ind = y * X_RES + x
      in if ucast (pDepthMap f ind) <s depthThresh s
         then (toflip_depthMatrix\<lparr>data := (data toflip_depthMatrix)
                  [ind := float_to_uchar ops
                     (fneg ops (fmul ops (u16_to_float ops (pDepthMap f ind)) (colorByDepth s)))]\<rparr>,
               toflip_usersMatrix\<lparr>data := (data toflip_usersMatrix)
                  [ind := ucast (pLabels f ind)]\<rparr>)
         else (toflip_depthMatrix\<lparr>data := (data toflip_depthMatrix)[ind := 0]\<rparr>,
               toflip_usersMatrix\<lparr>data := (data toflip_usersMatrix)[ind := 0]\<rparr>))"

function x_loop ::
  "'f fpu \<Rightarrow> 'f KinectController \<Rightarrow> frame \<Rightarrow> nat \<Rightarrow> nat \<Rightarrow> Mat \<times> Mat \<Rightarrow> Mat \<times> Mat" where
  "x_loop ops s f y x m =
     (if x < X_RES then x_loop ops s f y (Suc x) (pixel ops s f y x m) else m)"
  by pat_completeness auto
termination
  by (relation "measure (\<lambda>(ops, s, f, y, x, m). X_RES - x)") auto

function y_loop ::
  "'f fpu \<Rightarrow> 'f KinectController \<Rightarrow> frame \<Rightarrow> nat \<Rightarrow> Mat \<times> Mat \<Rightarrow> Mat \<times> Mat" where
  "y_loop ops s f y m =
     (if y < Y_RES then y_loop ops s f (Suc y) (x_loop ops s f y 0 m) else m)"
  by pat_completeness auto
termination
  by (relation "measure (\<lambda>(ops, s, f, y, m). Y_RES - y)") auto

text \<open>
  The part of \<^verbatim>\<open>update()\<close> after the frame has arrived: the two temporaries, the
  loops, the two flips.
\<close>

definition process_frame ::
  "'f fpu \<Rightarrow> frame \<Rightarrow> 'f KinectController \<Rightarrow> 'f KinectController" where
  "process_frame ops f s =
     (let toflip = y_loop ops s f 0 (zeros 480 640, zeros 480 640)
      in s\<lparr>depthMatrix := flip (fst toflip) 1, usersMatrix := flip (snd toflip) 1\<rparr>)"

text \<open>
  \<^verbatim>\<open>xnContext.Shutdown()\<close> and \<^verbatim>\<open>DestroyNUIMotor\<close> return nothing and write no member.
\<close>

definition stopDepthControl :: "'f KinectController \<Rightarrow> 'f KinectController" where
  "stopDepthControl s = s"

definition stopMotorControl :: "'f KinectController \<Rightarrow> 'f KinectController" where
  "stopMotorControl s = s"

definition kinectCleanupExit :: "'f KinectController \<Rightarrow> 'f KinectController" where
  "kinectCleanupExit s = stopMotorControl (stopDepthControl s)"

text \<open>
  \<^verbatim>\<open>update()\<close> and \<^verbatim>\<open>reset()\<close> call each other. The first argument bounds the depth of
  the calls: \<open>None\<close> means that the bound was reached before the call returned.
  \<open>Some (Inl BadAlloc)\<close> is the exception of \<^verbatim>\<open>new XnUserID [maxUsers]\<close> for a negative
  count; \<open>Some (Inr (rc, s))\<close> is a return of status \<open>rc\<close> in state \<open>s\<close>. \<^verbatim>\<open>update()\<close>
  drops the status returned by \<^verbatim>\<open>reset()\<close>, and \<^verbatim>\<open>reset()\<close> those of \<^verbatim>\<open>init()\<close> and
  \<^verbatim>\<open>update()\<close>: it returns \<^verbatim>\<open>xnRetVal\<close>. \<^verbatim>\<open>GetUsers\<close> assigns no status.
\<close>

fun update ::
    "nat \<Rightarrow> 'f fpu \<Rightarrow> device \<Rightarrow> 'f KinectController \<Rightarrow> (error + XnStatus \<times> 'f KinectController) option"
  and reset ::
    "nat \<Rightarrow> 'f fpu \<Rightarrow> device \<Rightarrow> 'f KinectController \<Rightarrow> (error + XnStatus \<times> 'f KinectController) option"
  where
  "update 0 ops dev s = None"
| "update (Suc n) ops dev s =
     (case (if maxIterate s <s iterations s then reset n ops dev s
            else Some (Inr (xnRetVal s, s))) of
        None \<Rightarrow> None
      | Some (Inl e) \<Rightarrow> Some (Inl e)
      | Some (Inr r) \<Rightarrow>
          (let s1 = snd r;
               s2 = sdk_call dev s1
           in if xnRetVal s2 \<noteq> XN_STATUS_OK then Some (Inr (xnRetVal s2, s2))
              else if maxUsers s2 <s 0 then Some (Inl BadAlloc)
              else
                (let s3 = process_frame ops (cam dev (xnContext s1)) s2;
                     s4 = s3\<lparr>iterations := iterations s3 + 1\<rparr>
                 in Some (Inr (xnRetVal s4, s4)))))"
| "reset 0 ops dev s = None"
| "reset (Suc n) ops dev s =
     (let s1 = kinectCleanupExit (s\<lparr>resetCount := Suc (resetCount s)\<rparr>);
          s2 = s1\<lparr>iterations := 0\<rparr>;
          s3 = snd (init ops dev s2)
      in case update n ops dev s3 of
           None \<Rightarrow> None
         | Some (Inl e) \<Rightarrow> Some (Inl e)
         | Some (Inr r) \<Rightarrow> Some (Inr (xnRetVal (snd r), snd r)))"

definition setDepth :: "32 word \<Rightarrow> 'f KinectController \<Rightarrow> 'f KinectController" where
  "setDepth depthDelta s = s\<lparr>depthThresh := depthThresh s + depthDelta\<rparr>"

definition setMotorAngle :: "32 word \<Rightarrow> 'f KinectController \<Rightarrow> 'f KinectController" where
  "setMotorAngle angle s =
     (let s1 = s\<lparr>nuiAngle := nuiAngle s + angle\<rparr>;
          s2 = s1\<lparr>nuiAngle := (if 15000 <s nuiAngle s1 then 15000
                                else if nuiAngle s1 <s - 15000 then - 15000
                                else nuiAngle s1)\<rparr>
      in s2\<lparr>nuiMotor := nuiAngle s2\<rparr>)"

definition resetMotorAngle :: "'f KinectController \<Rightarrow> 'f KinectController" where
  "resetMotorAngle s = (let s1 = s\<lparr>nuiAngle := initAngle s\<rparr> in s1\<lparr>nuiMotor := nuiAngle s1\<rparr>)"

definition getDepthMat :: "'f KinectController \<Rightarrow> Mat" where
  "getDepthMat s = depthMatrix s"

definition getUsersMat :: "'f KinectController \<Rightarrow> Mat" where
  "getUsersMat s = usersMatrix s"

section \<open>Notions for the statements\<close>

text \<open>
  The value that the body of the loops stores at index \<open>ind\<close> of the depth temporary
  and of the users temporary: the two branches of its \<^verbatim>\<open>if\<close>, read off as one
  expression.
\<close>

definition depth_px :: "'f fpu \<Rightarrow> 'f KinectController \<Rightarrow> frame \<Rightarrow> nat \<Rightarrow> 8 word" where
  "depth_px ops s f ind =
     (if ucast (pDepthMap f ind) <s depthThresh s
      then float_to_uchar ops
             (fneg ops (fmul ops (u16_to_float ops (pDepthMap f ind)) (colorByDepth s)))
      else 0)"

definition users_px :: "'f KinectController \<Rightarrow> frame \<Rightarrow> nat \<Rightarrow> 8 word" where
  "users_px s f ind =
     (if ucast (pDepthMap f ind) <s depthThresh s then ucast (pLabels f ind) else 0)"

text \<open>
  Three parts of \<^verbatim>\<open>update()\<close> and \<^verbatim>\<open>reset()\<close> under names of their own; the lemmas
  \<open>update_Suc\<close> and \<open>reset_Suc\<close> below write the two functions in terms of them.
\<close>

text \<open>The state in which \<^verbatim>\<open>reset()\<close> calls \<^verbatim>\<open>update()\<close>.\<close>

definition reinit :: "'f fpu \<Rightarrow> device \<Rightarrow> 'f KinectController \<Rightarrow> 'f KinectController" where
  "reinit ops dev s =
     snd (init ops dev ((kinectCleanupExit (s\<lparr>resetCount := Suc (resetCount s)\<rparr>))\<lparr>iterations := 0\<rparr>))"

text \<open>The state in which a successful \<^verbatim>\<open>update()\<close> returns when the wait was issued in \<open>s1\<close>.\<close>

definition frame_done :: "'f fpu \<Rightarrow> device \<Rightarrow> 'f KinectController \<Rightarrow> 'f KinectController" where
  "frame_done ops dev s1 =
     (process_frame ops (cam dev (xnContext s1)) (sdk_call dev s1))
       \<lparr>iterations := iterations s1 + 1\<rparr>"

text \<open>The part of \<^verbatim>\<open>update()\<close> from the wait on, entered in \<open>s1\<close>.\<close>

definition acquire ::
  "'f fpu \<Rightarrow> device \<Rightarrow> 'f KinectController \<Rightarrow> (error + XnStatus \<times> 'f KinectController) option" where
  "acquire ops dev s1 =
     (if sdk dev (xnContext s1) \<noteq> XN_STATUS_OK
      then Some (Inr (sdk dev (xnContext s1), sdk_call dev s1))
      else if maxUsers s1 <s 0 then Some (Inl BadAlloc)
      else Some (Inr (XN_STATUS_OK, frame_done ops dev s1)))"

text \<open>
  The calls of the public interface, and a client that issues a list of them one after
  the other on the same controller, whatever status each call returns. An exception
  ends the run; a call that does not return within the bound leaves the run without a
  result.
\<close>

datatype call = Update | Reset | SetDepth "32 word" | SetMotorAngle "32 word" | ResetMotorAngle

fun call_step ::
  "nat \<Rightarrow> 'f fpu \<Rightarrow> device \<Rightarrow> call \<Rightarrow> 'f KinectController \<Rightarrow> (error + 'f KinectController) option"
  where
  "call_step n ops dev Update s =
     (case update n ops dev s of
        None \<Rightarrow> None | Some (Inl e) \<Rightarrow> Some (Inl e) | Some (Inr r) \<Rightarrow> Some (Inr (snd r)))"
| "call_step n ops dev Reset s =
     (case reset n ops dev s of
        None \<Rightarrow> None | Some (Inl e) \<Rightarrow> Some (Inl e) | Some (Inr r) \<Rightarrow> Some (Inr (snd r)))"
| "call_step n ops dev (SetDepth depthDelta) s = Some (Inr (setDepth depthDelta s))"
| "call_step n ops dev (SetMotorAngle angle) s = Some (Inr (setMotorAngle angle s))"
| "call_step n ops dev ResetMotorAngle s = Some (Inr (resetMotorAngle s))"

fun run ::
  "nat \<Rightarrow> 'f fpu \<Rightarrow> device \<Rightarrow> call list \<Rightarrow> 'f KinectController \<Rightarrow> (error + 'f KinectController) option"
  where
  "run n ops dev [] s = Some (Inr s)"
| "run n ops dev (c # cs) s =
     (case call_step n ops dev c s of
        None \<Rightarrow> None | Some (Inl e) \<Rightarrow> Some (Inl e) | Some (Inr s') \<Rightarrow> run n ops dev cs s')"


text \<open>The state in which a call or a run returned, if it did.\<close>

definition final_state :: "(error + 'a) option \<Rightarrow> 'a option" where
  "final_state r = (case r of Some (Inr s) \<Rightarrow> Some s | _ \<Rightarrow> None)"

section \<open>Sessions for evaluation\<close>

text \<open>
  A session for concrete evaluation: every call of the sensor library succeeds, and
  every frame has depth 3000 and label 2 at index 0, depth 0 and no user at index 1,
  and depth 6000 and label 5 everywhere else. The controller is constructed for 6
  users, an iteration limit of 2, a depth threshold of 6000 and a motor angle of 10000.
\<close>

definition demo_frame :: frame where
  "demo_frame = \<lparr>pDepthMap = (\<lambda>i. if i = 0 then 3000 else if i = 1 then 0 else 6000),
                  pLabels = (\<lambda>i. if i = 0 then 2 else if i = 1 then 0 else 5)\<rparr>"

definition demo_device :: device where
  "demo_device = \<lparr>sdk = (\<lambda>n. XN_STATUS_OK), cam = (\<lambda>n. demo_frame)\<rparr>"

definition demo_controller :: "rat KinectController" where
  "demo_controller = new_KinectController exact_fpu demo_device 6 2 6000 10000"



text \<open>
  Two more devices for evaluation, with the same frames. On the first the tenth call of
  the sensor library fails with status 1: for a controller constructed on it (five
  calls) this is \<^verbatim>\<open>StartGeneratingAll\<close> of the next \<^verbatim>\<open>init()\<close>. On the second the sixth
  call fails with status 7: this is the first wait for a frame.
\<close>

definition flaky_device :: device where
  "flaky_device = \<lparr>sdk = (\<lambda>n. if n = 9 then 1 else XN_STATUS_OK), cam = (\<lambda>n. demo_frame)\<rparr>"

definition flaky_controller :: "rat KinectController" where
  "flaky_controller = new_KinectController exact_fpu flaky_device 6 2 6000 10000"

definition deaf_device :: device where
  "deaf_device = \<lparr>sdk = (\<lambda>n. if n = 5 then 7 else XN_STATUS_OK), cam = (\<lambda>n. demo_frame)\<rparr>"

definition deaf_controller :: "rat KinectController" where
  "deaf_controller = new_KinectController exact_fpu deaf_device 6 2 6000 10000"

text \<open>
  The session for evaluation after three calls of \<^verbatim>\<open>update()\<close>, and after a fourth one,
  which goes through \<^verbatim>\<open>reset()\<close>.
\<close>

definition demo_after3 :: "rat KinectController" where
  "demo_after3 =
     frame_done exact_fpu demo_device (frame_done exact_fpu demo_device
       (frame_done exact_fpu demo_device demo_controller))"

definition demo_after4 :: "rat KinectController" where
  "demo_after4 =
     frame_done exact_fpu demo_device (frame_done exact_fpu demo_device
       (reinit exact_fpu demo_device demo_after3))"

text \<open>
  A device on which the fifteenth call fails with status 7: for a controller constructed
  on it and updated three times (eight calls), this is the wait of the fourth
  \<^verbatim>\<open>update()\<close>, after the \<^verbatim>\<open>reset()\<close> it went through (five calls of \<^verbatim>\<open>init()\<close> and one
  wait).
\<close>

definition late_device :: device where
  "late_device = \<lparr>sdk = (\<lambda>n. if n = 14 then 7 else XN_STATUS_OK), cam = (\<lambda>n. demo_frame)\<rparr>"

definition late_controller :: "rat KinectController" where
  "late_controller = new_KinectController exact_fpu late_device 6 2 6000 10000"

definition late_after3 :: "rat KinectController" where
  "late_after3 =
     frame_done exact_fpu late_device (frame_done exact_fpu late_device
       (frame_done exact_fpu late_device late_controller))"

section \<open>The per-frame loops and the flip\<close>

declare x_loop.simps [simp del] y_loop.simps [simp del]

lemma pixel_fst:
  "fst (pixel ops s f y x m) =
     (fst m)\<lparr>data := (data (fst m))[y * X_RES + x := depth_px ops s f (y * X_RES + x)]\<rparr>"
  by (simp add: pixel_def depth_px_def Let_def)

lemma pixel_snd:
  "snd (pixel ops s f y x m) =
     (snd m)\<lparr>data := (data (snd m))[y * X_RES + x := users_px s f (y * X_RES + x)]\<rparr>"
  by (simp add: pixel_def users_px_def Let_def)

lemma x_loop_dims:
  "rows (fst (x_loop ops s f y x m)) = rows (fst m) \<and>
   cols (fst (x_loop ops s f y x m)) = cols (fst m) \<and>
   length (data (fst (x_loop ops s f y x m))) = length (data (fst m)) \<and>
   rows (snd (x_loop ops s f y x m)) = rows (snd m) \<and>
   cols (snd (x_loop ops s f y x m)) = cols (snd m) \<and>
   length (data (snd (x_loop ops s f y x m))) = length (data (snd m))"
proof (induction ops s f y x m rule: x_loop.induct)
  case (1 ops s f y x m)
  show ?case
  proof (cases "x < X_RES")
    case True
    then show ?thesis
      using "1.IH" by (subst (1 2 3 4 5 6) x_loop.simps) (simp add: pixel_fst pixel_snd)
  next
    case False
    then show ?thesis by (simp add: x_loop.simps)
  qed
qed

lemma x_loop_depth:
  "j < length (data (fst m)) \<Longrightarrow>
   data (fst (x_loop ops s f y x m)) ! j =
     (if y * X_RES + x \<le> j \<and> j < y * X_RES + X_RES then depth_px ops s f j
      else data (fst m) ! j)"
proof (induction ops s f y x m rule: x_loop.induct)
  case (1 ops s f y x m)
  show ?case
  proof (cases "x < X_RES")
    case True
    have "data (fst (x_loop ops s f y x m)) ! j =
          data (fst (x_loop ops s f y (Suc x) (pixel ops s f y x m))) ! j"
      using True by (subst x_loop.simps) simp
    also have "\<dots> = (if y * X_RES + Suc x \<le> j \<and> j < y * X_RES + X_RES then depth_px ops s f j
                      else data (fst (pixel ops s f y x m)) ! j)"
      using "1.IH" [OF True] "1.prems" by (simp add: pixel_fst)
    also have "\<dots> = (if y * X_RES + x \<le> j \<and> j < y * X_RES + X_RES then depth_px ops s f j
                      else data (fst m) ! j)"
      using True "1.prems" by (cases "j = y * X_RES + x") (auto simp add: pixel_fst nth_list_update)
    finally show ?thesis .
  next
    case False
    then show ?thesis by (auto simp add: x_loop.simps)
  qed
qed

lemma x_loop_users:
  "j < length (data (snd m)) \<Longrightarrow>
   data (snd (x_loop ops s f y x m)) ! j =
     (if y * X_RES + x \<le> j \<and> j < y * X_RES + X_RES then users_px s f j
      else data (snd m) ! j)"
proof (induction ops s f y x m rule: x_loop.induct)
  case (1 ops s f y x m)
  show ?case
  proof (cases "x < X_RES")
    case True
    have "data (snd (x_loop ops s f y x m)) ! j =
          data (snd (x_loop ops s f y (Suc x) (pixel ops s f y x m))) ! j"
      using True by (subst x_loop.simps) simp
    also have "\<dots> = (if y * X_RES + Suc x \<le> j \<and> j < y * X_RES + X_RES then users_px s f j
                      else data (snd (pixel ops s f y x m)) ! j)"
      using "1.IH" [OF True] "1.prems" by (simp add: pixel_snd)
    also have "\<dots> = (if y * X_RES + x \<le> j \<and> j < y * X_RES + X_RES then users_px s f j
                      else data (snd m) ! j)"
      using True "1.prems" by (cases "j = y * X_RES + x") (auto simp add: pixel_snd nth_list_update)
    finally show ?thesis .
  next
    case False
    then show ?thesis by (auto simp add: x_loop.simps)
  qed
qed

lemma y_loop_dims:
  "rows (fst (y_loop ops s f y m)) = rows (fst m) \<and>
   cols (fst (y_loop ops s f y m)) = cols (fst m) \<and>
   length (data (fst (y_loop ops s f y m))) = length (data (fst m)) \<and>
   rows (snd (y_loop ops s f y m)) = rows (snd m) \<and>
   cols (snd (y_loop ops s f y m)) = cols (snd m) \<and>
   length (data (snd (y_loop ops s f y m))) = length (data (snd m))"
proof (induction ops s f y m rule: y_loop.induct)
  case (1 ops s f y m)
  show ?case
  proof (cases "y < Y_RES")
    case True
    then show ?thesis
      using "1.IH" by (subst (1 2 3 4 5 6) y_loop.simps) (simp add: x_loop_dims)
  next
    case False
    then show ?thesis by (simp add: y_loop.simps)
  qed
qed

lemma row_ranges:
  assumes "y < Y_RES"
  shows "(y * X_RES \<le> j \<and> j < Y_RES * X_RES) \<longleftrightarrow>
         (Suc y * X_RES \<le> j \<and> j < Y_RES * X_RES) \<or> (y * X_RES + 0 \<le> j \<and> j < y * X_RES + X_RES)"
proof -
  have "Suc y * X_RES \<le> Y_RES * X_RES"
    using assms by (intro mult_le_mono1) simp
  then show ?thesis by auto
qed

lemma y_loop_depth:
  "j < length (data (fst m)) \<Longrightarrow>
   data (fst (y_loop ops s f y m)) ! j =
     (if y * X_RES \<le> j \<and> j < Y_RES * X_RES then depth_px ops s f j else data (fst m) ! j)"
proof (induction ops s f y m rule: y_loop.induct)
  case (1 ops s f y m)
  show ?case
  proof (cases "y < Y_RES")
    case True
    have "data (fst (y_loop ops s f y m)) ! j =
          data (fst (y_loop ops s f (Suc y) (x_loop ops s f y 0 m))) ! j"
      using True by (subst y_loop.simps) simp
    also have "\<dots> = (if Suc y * X_RES \<le> j \<and> j < Y_RES * X_RES then depth_px ops s f j
                      else data (fst (x_loop ops s f y 0 m)) ! j)"
      using "1.IH" [OF True] "1.prems" by (simp add: x_loop_dims)
    also have "\<dots> = (if y * X_RES \<le> j \<and> j < Y_RES * X_RES then depth_px ops s f j
                      else data (fst m) ! j)"
      using "1.prems" by (simp add: x_loop_depth row_ranges [OF True, of j])
    finally show ?thesis .
  next
    case False
    then have "\<not> (y * X_RES \<le> j \<and> j < Y_RES * X_RES)"
      by (metis leD le_trans mult_le_mono1 not_le_imp_less)
    with False show ?thesis by (auto simp add: y_loop.simps)
  qed
qed

lemma y_loop_users:
  "j < length (data (snd m)) \<Longrightarrow>
   data (snd (y_loop ops s f y m)) ! j =
     (if y * X_RES \<le> j \<and> j < Y_RES * X_RES then users_px s f j else data (snd m) ! j)"
proof (induction ops s f y m rule: y_loop.induct)
  case (1 ops s f y m)
  show ?case
  proof (cases "y < Y_RES")
    case True
    have "data (snd (y_loop ops s f y m)) ! j =
          data (snd (y_loop ops s f (Suc y) (x_loop ops s f y 0 m))) ! j"
      using True by (subst y_loop.simps) simp
    also have "\<dots> = (if Suc y * X_RES \<le> j \<and> j < Y_RES * X_RES then users_px s f j
                      else data (snd (x_loop ops s f y 0 m)) ! j)"
      using "1.IH" [OF True] "1.prems" by (simp add: x_loop_dims)
    also have "\<dots> = (if y * X_RES \<le> j \<and> j < Y_RES * X_RES then users_px s f j
                      else data (snd m) ! j)"
      using "1.prems" by (simp add: x_loop_users row_ranges [OF True, of j])
    finally show ?thesis .
  next
    case False
    then have "\<not> (y * X_RES \<le> j \<and> j < Y_RES * X_RES)"
      by (metis leD le_trans mult_le_mono1 not_le_imp_less)
    with False show ?thesis by (auto simp add: y_loop.simps)
  qed
qed

lemma flip_dims: "rows (flip src c) = rows src" "cols (flip src c) = cols src"
  "length (data (flip src c)) = rows src * cols src"
  by (simp_all add: flip_def)

lemma flip_horizontal:
  assumes "r < rows src" "c < cols src"
  shows "data (flip src 1) ! (r * cols src + c) = data src ! (r * cols src + (cols src - 1 - c))"
proof -
  have "r * cols src + c < rows src * cols src"
  proof -
    have "r * cols src + c < Suc r * cols src" using assms by simp
    also have "\<dots> \<le> rows src * cols src" using assms by (intro mult_le_mono1) simp
    finally show ?thesis .
  qed
  moreover have "flip_index src 1 (r * cols src + c) = r * cols src + (cols src - 1 - c)"
    using assms by (simp add: flip_index_def Let_def)
  ultimately show ?thesis by (simp add: flip_def)
qed

lemma zeros_fields: "rows (zeros r c) = r" "cols (zeros r c) = c"
  "length (data (zeros r c)) = r * c"
  by (simp_all add: zeros_def)

lemma zeros_nth: "j < r * c \<Longrightarrow> data (zeros r c) ! j = 0"
  by (simp add: zeros_def)

lemma process_frame_depth:
  assumes "r < 480" "c < 640"
  shows "data (depthMatrix (process_frame ops f s)) ! (r * 640 + c) =
         depth_px ops s f (r * 640 + (639 - c))"
proof -
  let ?t = "y_loop ops s f 0 (zeros 480 640, zeros 480 640)"
  have dims: "rows (fst ?t) = 480" "cols (fst ?t) = 640" "length (data (fst ?t)) = 480 * 640"
    using y_loop_dims [of ops s f 0 "(zeros 480 640, zeros 480 640)"]
    by (simp_all add: zeros_fields)
  have "r * 640 + (639 - c) < Suc r * 640" using assms by simp
  also have "\<dots> \<le> 480 * 640" using assms by simp
  finally have lt: "r * 640 + (639 - c) < 480 * 640" .
  have "data (depthMatrix (process_frame ops f s)) ! (r * 640 + c) =
        data (flip (fst ?t) 1) ! (r * cols (fst ?t) + c)"
    by (simp add: process_frame_def Let_def dims)
  also have "\<dots> = data (fst ?t) ! (r * 640 + (639 - c))"
    using flip_horizontal [of r "fst ?t" c] assms by (simp add: dims)
  also have "\<dots> = depth_px ops s f (r * 640 + (639 - c))"
    using lt by (subst y_loop_depth) (simp_all add: zeros_fields X_RES_def Y_RES_def)
  finally show ?thesis .
qed

lemma process_frame_users:
  assumes "r < 480" "c < 640"
  shows "data (usersMatrix (process_frame ops f s)) ! (r * 640 + c) =
         users_px s f (r * 640 + (639 - c))"
proof -
  let ?t = "y_loop ops s f 0 (zeros 480 640, zeros 480 640)"
  have dims: "rows (snd ?t) = 480" "cols (snd ?t) = 640" "length (data (snd ?t)) = 480 * 640"
    using y_loop_dims [of ops s f 0 "(zeros 480 640, zeros 480 640)"]
    by (simp_all add: zeros_fields)
  have "r * 640 + (639 - c) < Suc r * 640" using assms by simp
  also have "\<dots> \<le> 480 * 640" using assms by simp
  finally have lt: "r * 640 + (639 - c) < 480 * 640" .
  have "data (usersMatrix (process_frame ops f s)) ! (r * 640 + c) =
        data (flip (snd ?t) 1) ! (r * cols (snd ?t) + c)"
    by (simp add: process_frame_def Let_def dims)
  also have "\<dots> = data (snd ?t) ! (r * 640 + (639 - c))"
    using flip_horizontal [of r "snd ?t" c] assms by (simp add: dims)
  also have "\<dots> = users_px s f (r * 640 + (639 - c))"
    using lt by (subst y_loop_users) (simp_all add: zeros_fields X_RES_def Y_RES_def)
  finally show ?thesis .
qed

lemma process_frame_dims:
  "rows (depthMatrix (process_frame ops f s)) = 480"
  "cols (depthMatrix (process_frame ops f s)) = 640"
  "length (data (depthMatrix (process_frame ops f s))) = 480 * 640"
  "rows (usersMatrix (process_frame ops f s)) = 480"
  "cols (usersMatrix (process_frame ops f s)) = 640"
  "length (data (usersMatrix (process_frame ops f s))) = 480 * 640"
  using y_loop_dims [of ops s f 0 "(zeros 480 640, zeros 480 640)"]
  by (simp_all add: process_frame_def Let_def flip_dims zeros_fields)

lemma process_frame_keeps:
  "xnContext (process_frame ops f s) = xnContext s"
  "xnRetVal (process_frame ops f s) = xnRetVal s"
  "maxUsers (process_frame ops f s) = maxUsers s"
  "maxIterate (process_frame ops f s) = maxIterate s"
  "iterations (process_frame ops f s) = iterations s"
  "depthThresh (process_frame ops f s) = depthThresh s"
  "colorByDepth (process_frame ops f s) = colorByDepth s"
  "nuiMotor (process_frame ops f s) = nuiMotor s"
  "initAngle (process_frame ops f s) = initAngle s"
  "nuiAngle (process_frame ops f s) = nuiAngle s"
  "resetCount (process_frame ops f s) = resetCount s"
  by (simp_all add: process_frame_def Let_def)

lemma depth_px_cong:
  "depthThresh s = depthThresh t \<Longrightarrow> colorByDepth s = colorByDepth t \<Longrightarrow>
   depth_px ops s f = depth_px ops t f"
  by (rule ext) (simp add: depth_px_def)

lemma users_px_cong:
  "depthThresh s = depthThresh t \<Longrightarrow> users_px s f = users_px t f"
  by (rule ext) (simp add: users_px_def)

lemma fst_initDepthControl: "fst (initDepthControl dev s) = xnRetVal (snd (initDepthControl dev s))"
  by (simp add: initDepthControl_def Let_def)

lemma initDepthControl_keeps:
  "maxUsers (snd (initDepthControl dev s)) = maxUsers s"
  "maxIterate (snd (initDepthControl dev s)) = maxIterate s"
  "iterations (snd (initDepthControl dev s)) = iterations s"
  "depthThresh (snd (initDepthControl dev s)) = depthThresh s"
  "colorByDepth (snd (initDepthControl dev s)) = colorByDepth s"
  "depthMatrix (snd (initDepthControl dev s)) = depthMatrix s"
  "usersMatrix (snd (initDepthControl dev s)) = usersMatrix s"
  "nuiMotor (snd (initDepthControl dev s)) = nuiMotor s"
  "initAngle (snd (initDepthControl dev s)) = initAngle s"
  "nuiAngle (snd (initDepthControl dev s)) = nuiAngle s"
  "resetCount (snd (initDepthControl dev s)) = resetCount s"
  by (simp_all add: initDepthControl_def sdk_call_def Let_def)

lemma init_fields:
  "maxUsers (snd (init ops dev s)) = maxUsers s"
  "maxIterate (snd (init ops dev s)) = maxIterate s"
  "iterations (snd (init ops dev s)) = 0"
  "depthThresh (snd (init ops dev s)) = depthThresh s"
  "colorByDepth (snd (init ops dev s)) =
     fdiv ops (int_to_float ops COLOR_RANGE) (int_to_float ops (depthThresh s))"
  "depthMatrix (snd (init ops dev s)) = zeros 480 640"
  "usersMatrix (snd (init ops dev s)) = zeros 480 640"
  "initAngle (snd (init ops dev s)) = initAngle s"
  "nuiAngle (snd (init ops dev s)) = nuiAngle s"
  "resetCount (snd (init ops dev s)) = resetCount s"
  by (simp_all add: init_def initMotorControl_def Let_def initDepthControl_keeps)

lemma fst_init: "fst (init ops dev s) = xnRetVal (snd (init ops dev s))"
  by (simp add: init_def Let_def)

lemma sdk_call_fields:
  "xnContext (sdk_call dev s) = Suc (xnContext s)"
  "xnRetVal (sdk_call dev s) = sdk dev (xnContext s)"
  "maxUsers (sdk_call dev s) = maxUsers s"
  "maxIterate (sdk_call dev s) = maxIterate s"
  "iterations (sdk_call dev s) = iterations s"
  "depthThresh (sdk_call dev s) = depthThresh s"
  "colorByDepth (sdk_call dev s) = colorByDepth s"
  "depthMatrix (sdk_call dev s) = depthMatrix s"
  "usersMatrix (sdk_call dev s) = usersMatrix s"
  "nuiMotor (sdk_call dev s) = nuiMotor s"
  "initAngle (sdk_call dev s) = initAngle s"
  "nuiAngle (sdk_call dev s) = nuiAngle s"
  "resetCount (sdk_call dev s) = resetCount s"
  by (simp_all add: sdk_call_def)

lemma reinit_fields:
  "maxUsers (reinit ops dev s) = maxUsers s"
  "maxIterate (reinit ops dev s) = maxIterate s"
  "iterations (reinit ops dev s) = 0"
  "depthThresh (reinit ops dev s) = depthThresh s"
  "colorByDepth (reinit ops dev s) =
     fdiv ops (int_to_float ops COLOR_RANGE) (int_to_float ops (depthThresh s))"
  "depthMatrix (reinit ops dev s) = zeros 480 640"
  "usersMatrix (reinit ops dev s) = zeros 480 640"
  "initAngle (reinit ops dev s) = initAngle s"
  "nuiAngle (reinit ops dev s) = nuiAngle s"
  "resetCount (reinit ops dev s) = Suc (resetCount s)"
  by (simp_all add: reinit_def init_fields kinectCleanupExit_def stopDepthControl_def stopMotorControl_def)

lemma reset_Suc:
  "reset (Suc n) ops dev s =
     (case update n ops dev (reinit ops dev s) of
        None \<Rightarrow> None
      | Some (Inl e) \<Rightarrow> Some (Inl e)
      | Some (Inr r) \<Rightarrow> Some (Inr (xnRetVal (snd r), snd r)))"
  by (simp add: reinit_def Let_def)

lemma update_Suc:
  "update (Suc n) ops dev s =
     (if maxIterate s <s iterations s
      then (case reset n ops dev s of
              None \<Rightarrow> None
            | Some (Inl e) \<Rightarrow> Some (Inl e)
            | Some (Inr r) \<Rightarrow> acquire ops dev (snd r))
      else acquire ops dev s)"
  by (simp add: acquire_def frame_done_def Let_def sdk_call_fields process_frame_keeps
      split: option.split sum.split)

declare update.simps [simp del] reset.simps [simp del]

section \<open>The tilt angle\<close>

lemma clampAngle_range: "- 15000 \<le> sint (clampAngle a) \<and> sint (clampAngle a) \<le> 15000"
  by (simp add: clampAngle_def word_sless_alt)

lemma setMotorAngle_nuiAngle: "nuiAngle (setMotorAngle d s) = clampAngle (nuiAngle s + d)"
  by (simp add: setMotorAngle_def clampAngle_def Let_def)

lemma setMotorAngle_initAngle: "initAngle (setMotorAngle d s) = initAngle s"
  by (simp add: setMotorAngle_def Let_def)

lemma fold_setMotorAngle_initAngle: "initAngle (fold setMotorAngle ds s) = initAngle s"
  by (induction ds arbitrary: s) (simp_all add: setMotorAngle_initAngle)

lemma fold_setMotorAngle_range:
  "- 15000 \<le> sint (nuiAngle s) \<and> sint (nuiAngle s) \<le> 15000 \<Longrightarrow>
   - 15000 \<le> sint (nuiAngle (fold setMotorAngle ds s)) \<and>
   sint (nuiAngle (fold setMotorAngle ds s)) \<le> 15000"
proof (induction ds arbitrary: s)
  case Nil
  then show ?case by simp
next
  case (Cons d ds)
  have "- 15000 \<le> sint (nuiAngle (setMotorAngle d s)) \<and> sint (nuiAngle (setMotorAngle d s)) \<le> 15000"
    by (simp only: setMotorAngle_nuiAngle clampAngle_range)
  from Cons.IH [OF this] show ?case by simp
qed

lemma new_angles:
  "initAngle (new_KinectController ops dev u i d a) = clampAngle a"
  "nuiAngle (new_KinectController ops dev u i d a) = clampAngle a"
  by (simp_all add: new_KinectController_def init_fields)

text \<open>
  C3: the stored tilt angle is always within \<open>[-15000, 15000]\<close>. The initial angle
  recorded by the constructor is clamped to that range (a motor angle of 20000 is stored
  as 15000), and after any sequence of \<^verbatim>\<open>setMotorAngle\<close> calls, with arbitrary 32-bit
  deltas, the current angle is within the range. The addition of the delta wraps around
  in the model; the clamp that follows it brings every sum into the range.
\<close>

theorem tilt_angle_clamped:
  "- 15000 \<le> sint (initAngle (new_KinectController ops dev u i d a)) \<and>
   sint (initAngle (new_KinectController ops dev u i d a)) \<le> 15000 \<and>
   initAngle (new_KinectController ops dev u i d 20000) = 15000 \<and>
   - 15000 \<le> sint (nuiAngle (fold setMotorAngle deltas (new_KinectController ops dev u i d a))) \<and>
   sint (nuiAngle (fold setMotorAngle deltas (new_KinectController ops dev u i d a))) \<le> 15000"
proof -
  have "clampAngle 20000 = 15000"
    by (simp add: clampAngle_def word_sless_alt)
  moreover have "- 15000 \<le> sint (nuiAngle (new_KinectController ops dev u i d a)) \<and>
     sint (nuiAngle (new_KinectController ops dev u i d a)) \<le> 15000"
    by (simp only: new_angles clampAngle_range)
  ultimately show ?thesis
    using fold_setMotorAngle_range [of "new_KinectController ops dev u i d a" deltas]
      clampAngle_range [of a]
    by (simp add: new_angles)
qed

text \<open>
  C7: \<^verbatim>\<open>resetMotorAngle()\<close> sets the current tilt angle to exactly the clamped initial
  angle recorded by the constructor, whatever \<^verbatim>\<open>setMotorAngle\<close> calls came in between,
  and sends that angle to the motor.
\<close>

theorem resetMotorAngle_restores:
  "nuiAngle (resetMotorAngle (fold setMotorAngle deltas (new_KinectController ops dev u i d a))) =
     clampAngle a \<and>
   initAngle (new_KinectController ops dev u i d a) = clampAngle a \<and>
   nuiMotor (resetMotorAngle (fold setMotorAngle deltas (new_KinectController ops dev u i d a))) =
     clampAngle a"
  by (simp add: resetMotorAngle_def Let_def fold_setMotorAngle_initAngle new_angles)

section \<open>What \<^verbatim>\<open>update()\<close> and \<^verbatim>\<open>reset()\<close> return\<close>


lemma frame_done_fields:
  "xnContext (frame_done ops dev s) = Suc (xnContext s)"
  "xnRetVal (frame_done ops dev s) = sdk dev (xnContext s)"
  "maxUsers (frame_done ops dev s) = maxUsers s"
  "maxIterate (frame_done ops dev s) = maxIterate s"
  "iterations (frame_done ops dev s) = iterations s + 1"
  "depthThresh (frame_done ops dev s) = depthThresh s"
  "colorByDepth (frame_done ops dev s) = colorByDepth s"
  "nuiMotor (frame_done ops dev s) = nuiMotor s"
  "initAngle (frame_done ops dev s) = initAngle s"
  "nuiAngle (frame_done ops dev s) = nuiAngle s"
  "resetCount (frame_done ops dev s) = resetCount s"
  by (simp_all add: frame_done_def process_frame_keeps sdk_call_fields)

lemma frame_done_dims:
  "rows (depthMatrix (frame_done ops dev s)) = 480"
  "cols (depthMatrix (frame_done ops dev s)) = 640"
  "length (data (depthMatrix (frame_done ops dev s))) = 480 * 640"
  "rows (usersMatrix (frame_done ops dev s)) = 480"
  "cols (usersMatrix (frame_done ops dev s)) = 640"
  "length (data (usersMatrix (frame_done ops dev s))) = 480 * 640"
  by (simp_all add: frame_done_def process_frame_dims)

lemma frame_done_depth:
  assumes "r < 480" "c < 640"
  shows "data (depthMatrix (frame_done ops dev s)) ! (r * 640 + c) =
         depth_px ops s (cam dev (xnContext s)) (r * 640 + (639 - c))"
  using process_frame_depth [OF assms, of ops "cam dev (xnContext s)" "sdk_call dev s"]
    depth_px_cong [of "sdk_call dev s" s ops "cam dev (xnContext s)"]
  by (simp add: frame_done_def sdk_call_fields)

lemma frame_done_users:
  assumes "r < 480" "c < 640"
  shows "data (usersMatrix (frame_done ops dev s)) ! (r * 640 + c) =
         users_px s (cam dev (xnContext s)) (r * 640 + (639 - c))"
  using process_frame_users [OF assms, of ops "cam dev (xnContext s)" "sdk_call dev s"]
    users_px_cong [of "sdk_call dev s" s "cam dev (xnContext s)"]
  by (simp add: frame_done_def sdk_call_fields)

lemma acquire_OK:
  "acquire ops dev s1 = Some (Inr (XN_STATUS_OK, s')) \<Longrightarrow>
   s' = frame_done ops dev s1 \<and> sdk dev (xnContext s1) = XN_STATUS_OK \<and> \<not> maxUsers s1 <s 0"
  by (auto simp add: acquire_def split: if_splits)

lemma acquire_failed:
  "acquire ops dev s1 = Some (Inr (rc, s')) \<Longrightarrow> rc \<noteq> XN_STATUS_OK \<Longrightarrow>
   s' = sdk_call dev s1 \<and> rc = sdk dev (xnContext s1)"
  by (auto simp add: acquire_def split: if_splits)

lemma acquire_status:
  "acquire ops dev s1 = Some (Inr (rc, s')) \<Longrightarrow> rc = xnRetVal s'"
  by (auto simp add: acquire_def sdk_call_fields frame_done_fields split: if_splits)

text \<open>Every return of \<^verbatim>\<open>update()\<close> comes out of the part after the wait, entered in some state.\<close>

lemma update_returns_acquire:
  assumes "update n ops dev s = Some (Inr (rc, s'))"
  shows "\<exists>s1. acquire ops dev s1 = Some (Inr (rc, s')) \<and>
           (if maxIterate s <s iterations s
            then \<exists>m rc1. n = Suc m \<and> reset m ops dev s = Some (Inr (rc1, s1))
            else s1 = s)"
proof (cases n)
  case 0
  with assms show ?thesis by (simp add: update.simps)
next
  case (Suc m)
  show ?thesis
  proof (cases "maxIterate s <s iterations s")
    case True
    with assms Suc show ?thesis
      by (auto simp add: update_Suc split: option.splits sum.splits)
  next
    case False
    with assms Suc show ?thesis by (simp add: update_Suc)
  qed
qed

lemma reset_returns_update:
  assumes "reset n ops dev s = Some (Inr (rc, s'))"
  shows "\<exists>m rc1. n = Suc m \<and> update m ops dev (reinit ops dev s) = Some (Inr (rc1, s')) \<and>
           rc = xnRetVal s'"
proof (cases n)
  case 0
  with assms show ?thesis by (simp add: reset.simps)
next
  case (Suc m)
  with assms show ?thesis
    by (auto simp add: reset_Suc split: option.splits sum.splits)
qed

lemma update_status:
  "update n ops dev s = Some (Inr (rc, s')) \<Longrightarrow> rc = xnRetVal s'"
  using update_returns_acquire acquire_status by blast

text \<open>A property kept by the three state changes of \<^verbatim>\<open>update()\<close> and \<^verbatim>\<open>reset()\<close> is kept by both.\<close>

lemma update_reset_preserve:
  assumes wait_step: "\<And>t. P t \<Longrightarrow> P (sdk_call dev t)"
      and frame_step: "\<And>t. P t \<Longrightarrow> P (frame_done ops dev t)"
      and reinit_step: "\<And>t. P t \<Longrightarrow> P (reinit ops dev t)"
  shows "(\<forall>s rc s'. P s \<longrightarrow> update n ops dev s = Some (Inr (rc, s')) \<longrightarrow> P s') \<and>
         (\<forall>s rc s'. P s \<longrightarrow> reset n ops dev s = Some (Inr (rc, s')) \<longrightarrow> P s')"
proof (induction n)
  case 0
  show ?case by (simp add: update.simps reset.simps)
next
  case (Suc n)
  have acq: "P s'" if "P s1" "acquire ops dev s1 = Some (Inr (rc, s'))" for s1 rc s'
    using that wait_step [of s1] frame_step [of s1] by (auto simp add: acquire_def split: if_splits)
  have upd: "P s'" if "P s" "update (Suc n) ops dev s = Some (Inr (rc, s'))" for s rc s'
  proof -
    from update_returns_acquire [OF that(2)] obtain s1 where
      a: "acquire ops dev s1 = Some (Inr (rc, s'))" and
      b: "if maxIterate s <s iterations s
          then \<exists>m rc1. Suc n = Suc m \<and> reset m ops dev s = Some (Inr (rc1, s1)) else s1 = s"
      by blast
    have "P s1"
    proof (cases "maxIterate s <s iterations s")
      case True
      with b obtain rc1 where "reset n ops dev s = Some (Inr (rc1, s1))" by auto
      with Suc.IH that(1) show ?thesis by blast
    next
      case False
      with b that(1) show ?thesis by simp
    qed
    with a show ?thesis by (rule acq [rotated])
  qed
  have rst: "P s'" if "P s" "reset (Suc n) ops dev s = Some (Inr (rc, s'))" for s rc s'
  proof -
    from reset_returns_update [OF that(2)] obtain rc1 where
      "update n ops dev (reinit ops dev s) = Some (Inr (rc1, s'))" by auto
    moreover have "P (reinit ops dev s)" using that(1) by (rule reinit_step)
    ultimately show ?thesis using Suc.IH by blast
  qed
  from upd rst show ?case by blast
qed

lemma update_preserve:
  assumes "\<And>t. P t \<Longrightarrow> P (sdk_call dev t)" "\<And>t. P t \<Longrightarrow> P (frame_done ops dev t)"
    "\<And>t. P t \<Longrightarrow> P (reinit ops dev t)"
    and "P s" "update n ops dev s = Some (Inr (rc, s'))"
  shows "P s'"
  using update_reset_preserve [of P dev ops n] assms by blast

lemma reset_preserve:
  assumes "\<And>t. P t \<Longrightarrow> P (sdk_call dev t)" "\<And>t. P t \<Longrightarrow> P (frame_done ops dev t)"
    "\<And>t. P t \<Longrightarrow> P (reinit ops dev t)"
    and "P s" "reset n ops dev s = Some (Inr (rc, s'))"
  shows "P s'"
  using update_reset_preserve [of P dev ops n] assms by blast


lemma reset_config:
  assumes "reset n ops dev s = Some (Inr (rc, s'))"
  shows "maxUsers s' = maxUsers s \<and> maxIterate s' = maxIterate s \<and>
         depthThresh s' = depthThresh s \<and> initAngle s' = initAngle s \<and> nuiAngle s' = nuiAngle s"
  by (rule reset_preserve [where P = "\<lambda>t. maxUsers t = maxUsers s \<and> maxIterate t = maxIterate s \<and>
         depthThresh t = depthThresh s \<and> initAngle t = initAngle s \<and> nuiAngle t = nuiAngle s",
        OF _ _ _ _ assms])
     (simp_all add: sdk_call_fields frame_done_fields reinit_fields)

text \<open>A successful \<^verbatim>\<open>update()\<close> ends with the processing of the frame of its last wait.\<close>

lemma update_OK_frame_done:
  assumes "update n ops dev s = Some (Inr (XN_STATUS_OK, s'))"
  shows "\<exists>s1. s' = frame_done ops dev s1 \<and> sdk dev (xnContext s1) = XN_STATUS_OK \<and>
           depthThresh s1 = depthThresh s \<and>
           colorByDepth s1 = (if maxIterate s <s iterations s
              then fdiv ops (int_to_float ops COLOR_RANGE) (int_to_float ops (depthThresh s))
              else colorByDepth s)"
proof -
  from update_returns_acquire [OF assms] obtain s1 where
    a: "acquire ops dev s1 = Some (Inr (XN_STATUS_OK, s'))" and
    b: "if maxIterate s <s iterations s
        then \<exists>m rc1. n = Suc m \<and> reset m ops dev s = Some (Inr (rc1, s1)) else s1 = s"
    by blast
  have c: "depthThresh s1 = depthThresh s \<and>
           colorByDepth s1 = (if maxIterate s <s iterations s
              then fdiv ops (int_to_float ops COLOR_RANGE) (int_to_float ops (depthThresh s))
              else colorByDepth s)"
  proof (cases "maxIterate s <s iterations s")
    case True
    with b obtain m rc1 where r: "reset m ops dev s = Some (Inr (rc1, s1))" by auto
    from reset_returns_update [OF r] obtain k rc2 where
      u: "update k ops dev (reinit ops dev s) = Some (Inr (rc2, s1))" by auto
    have "depthThresh s1 = depthThresh s \<and> colorByDepth s1 =
            fdiv ops (int_to_float ops COLOR_RANGE) (int_to_float ops (depthThresh s))"
      by (rule update_preserve [where P = "\<lambda>t. depthThresh t = depthThresh s \<and> colorByDepth t =
              fdiv ops (int_to_float ops COLOR_RANGE) (int_to_float ops (depthThresh s))",
            OF _ _ _ _ u])
         (simp_all add: sdk_call_fields frame_done_fields reinit_fields)
    with True show ?thesis by simp
  next
    case False
    with b show ?thesis by simp
  qed
  from acquire_OK [OF a] c show ?thesis by blast
qed

lemma pixel_cong:
  "depthThresh s = depthThresh t \<Longrightarrow> colorByDepth s = colorByDepth t \<Longrightarrow>
   pixel ops s f y x m = pixel ops t f y x m"
  unfolding pixel_def by (simp only:)

lemma x_loop_cong:
  "depthThresh s = depthThresh t \<Longrightarrow> colorByDepth s = colorByDepth t \<Longrightarrow>
   x_loop ops s f y x m = x_loop ops t f y x m"
proof (induction ops s f y x m rule: x_loop.induct)
  case (1 ops s f y x m)
  show ?case
  proof (cases "x < X_RES")
    case True
    have "x_loop ops s f y x m = x_loop ops s f y (Suc x) (pixel ops s f y x m)"
      using True by (subst x_loop.simps) simp
    also have "\<dots> = x_loop ops t f y (Suc x) (pixel ops s f y x m)"
      using "1.IH" [OF True "1.prems"] .
    also have "\<dots> = x_loop ops t f y (Suc x) (pixel ops t f y x m)"
      by (simp only: pixel_cong [OF "1.prems"])
    also have "\<dots> = x_loop ops t f y x m"
      using True by (subst (2) x_loop.simps) simp
    finally show ?thesis .
  next
    case False
    then show ?thesis by (simp add: x_loop.simps)
  qed
qed

lemma y_loop_cong:
  "depthThresh s = depthThresh t \<Longrightarrow> colorByDepth s = colorByDepth t \<Longrightarrow>
   y_loop ops s f y m = y_loop ops t f y m"
proof (induction ops s f y m rule: y_loop.induct)
  case (1 ops s f y m)
  show ?case
  proof (cases "y < Y_RES")
    case True
    have "y_loop ops s f y m = y_loop ops s f (Suc y) (x_loop ops s f y 0 m)"
      using True by (subst y_loop.simps) simp
    also have "\<dots> = y_loop ops t f (Suc y) (x_loop ops s f y 0 m)"
      using "1.IH" [OF True "1.prems"] .
    also have "\<dots> = y_loop ops t f (Suc y) (x_loop ops t f y 0 m)"
      by (simp only: x_loop_cong [OF "1.prems"])
    also have "\<dots> = y_loop ops t f y m"
      using True by (subst (2) y_loop.simps) simp
    finally show ?thesis .
  next
    case False
    then show ?thesis by (simp add: y_loop.simps)
  qed
qed

text \<open>The bound on the depth of the calls does not change what a call returns.\<close>

lemma fuel_Suc:
  "(\<forall>s r. update n ops dev s = Some r \<longrightarrow> update (Suc n) ops dev s = Some r) \<and>
   (\<forall>s r. reset n ops dev s = Some r \<longrightarrow> reset (Suc n) ops dev s = Some r)"
proof (induction n)
  case 0
  show ?case by (simp add: update.simps reset.simps)
next
  case (Suc n)
  have "update (Suc (Suc n)) ops dev s = Some r" if "update (Suc n) ops dev s = Some r" for s r
  proof (cases "maxIterate s <s iterations s")
    case True
    with that obtain x where x: "reset n ops dev s = Some x"
      by (auto simp add: update_Suc split: option.splits)
    with Suc.IH have "reset (Suc n) ops dev s = Some x" by blast
    with that x True show ?thesis by (simp add: update_Suc)
  next
    case False
    with that show ?thesis by (simp add: update_Suc)
  qed
  moreover have "reset (Suc (Suc n)) ops dev s = Some r" if "reset (Suc n) ops dev s = Some r" for s r
  proof -
    from that obtain x where x: "update n ops dev (reinit ops dev s) = Some x"
      by (auto simp add: reset_Suc split: option.splits)
    with Suc.IH have "update (Suc n) ops dev (reinit ops dev s) = Some x" by blast
    with that x show ?thesis by (simp add: reset_Suc)
  qed
  ultimately show ?case by blast
qed

lemma update_fuel_mono:
  "update n ops dev s = Some r \<Longrightarrow> update (n + k) ops dev s = Some r"
proof (induction k)
  case 0
  then show ?case by simp
next
  case (Suc k)
  then have "update (n + k) ops dev s = Some r" by simp
  with fuel_Suc [of "n + k" ops dev] show ?case by simp
qed

text \<open>
  With an iteration limit that is not negative, three levels suffice: \<^verbatim>\<open>update()\<close>,
  \<^verbatim>\<open>reset()\<close>, and the \<^verbatim>\<open>update()\<close> inside it, which finds the counter at 0.
\<close>

lemma update_returns:
  assumes "\<not> maxIterate s <s 0"
  shows "update (Suc (Suc (Suc n))) ops dev s \<noteq> None"
proof (cases "maxIterate s <s iterations s")
  case True
  have "update (Suc n) ops dev (reinit ops dev s) = acquire ops dev (reinit ops dev s)"
    using assms by (simp add: update_Suc reinit_fields)
  moreover have "acquire ops dev t \<noteq> None" for t
    by (simp add: acquire_def)
  ultimately show ?thesis
    using True
    by (auto simp add: update_Suc [of "Suc (Suc n)"] reset_Suc split: option.splits sum.splits)
next
  case False
  then show ?thesis by (simp add: update_Suc acquire_def)
qed

text \<open>
  With a negative iteration limit, a call of \<^verbatim>\<open>update()\<close> that finds the counter above
  the limit never returns: \<^verbatim>\<open>reset()\<close> sets the counter to 0, which is above the limit
  again, and the \<^verbatim>\<open>update()\<close> inside it calls \<^verbatim>\<open>reset()\<close> in turn.
\<close>

lemma update_never_returns:
  "(\<forall>s. maxIterate s <s 0 \<longrightarrow> maxIterate s <s iterations s \<longrightarrow> update n ops dev s = None) \<and>
   (\<forall>s. maxIterate s <s 0 \<longrightarrow> reset n ops dev s = None)"
proof (induction n)
  case 0
  show ?case by (simp add: update.simps reset.simps)
next
  case (Suc n)
  have "update (Suc n) ops dev s = None"
    if "maxIterate s <s 0" "maxIterate s <s iterations s" for s
    using that Suc.IH by (simp add: update_Suc)
  moreover have "reset (Suc n) ops dev s = None" if "maxIterate s <s 0" for s
  proof -
    have "update n ops dev (reinit ops dev s) = None"
      using that Suc.IH by (simp add: reinit_fields)
    then show ?thesis by (simp add: reset_Suc)
  qed
  ultimately show ?case by blast
qed

section \<open>The processed frame\<close>

lemma frame_done_temporaries:
  "depthMatrix (frame_done ops dev s) =
     flip (fst (y_loop ops (frame_done ops dev s) (cam dev (xnContext s)) 0
                  (zeros 480 640, zeros 480 640))) 1"
  "usersMatrix (frame_done ops dev s) =
     flip (snd (y_loop ops (frame_done ops dev s) (cam dev (xnContext s)) 0
                  (zeros 480 640, zeros 480 640))) 1"
  using y_loop_cong [of "frame_done ops dev s" "sdk_call dev s" ops "cam dev (xnContext s)" 0
      "(zeros 480 640, zeros 480 640)"]
  by (simp_all add: frame_done_fields sdk_call_fields)
     (simp_all add: frame_done_def process_frame_def Let_def)

lemma new_colorByDepth:
  "colorByDepth (new_KinectController ops dev u i d a) =
     fdiv ops (int_to_float ops COLOR_RANGE) (int_to_float ops d)"
  by (simp add: new_KinectController_def init_fields)

lemma new_fields:
  "maxUsers (new_KinectController ops dev u i d a) = u"
  "maxIterate (new_KinectController ops dev u i d a) = i"
  "iterations (new_KinectController ops dev u i d a) = 0"
  "depthThresh (new_KinectController ops dev u i d a) = d"
  "resetCount (new_KinectController ops dev u i d a) = 0"
  "depthMatrix (new_KinectController ops dev u i d a) = zeros 480 640"
  "usersMatrix (new_KinectController ops dev u i d a) = zeros 480 640"
  by (simp_all add: new_KinectController_def init_fields)

lemma exact_fpu_ops:
  "int_to_float exact_fpu w = of_int (sint w)"
  "u16_to_float exact_fpu v = of_nat (unat v)"
  "fdiv exact_fpu a b = a / b"
  "fmul exact_fpu a b = a * b"
  "fneg exact_fpu a = - a"
  "float_to_uchar exact_fpu a = word_of_int (trunc_rat a)"
  by (simp_all add: exact_fpu_def)

lemma demo_fields:
  "maxUsers demo_controller = 6" "maxIterate demo_controller = 2"
  "iterations demo_controller = 0" "depthThresh demo_controller = 6000"
  "resetCount demo_controller = 0"
  "sdk demo_device k = XN_STATUS_OK" "cam demo_device k = demo_frame"
  by (simp_all add: demo_controller_def new_fields demo_device_def)

lemma demo_update:
  "update 1 exact_fpu demo_device demo_controller =
     Some (Inr (XN_STATUS_OK, frame_done exact_fpu demo_device demo_controller))"
  by (simp add: update_Suc acquire_def demo_fields word_sless_alt)

lemma demo_color: "colorByDepth demo_controller = 255 / 6000"
  by (simp add: demo_controller_def new_colorByDepth exact_fpu_ops COLOR_RANGE_def)

lemma demo_depth_3000:
  "float_to_uchar exact_fpu (fneg exact_fpu (fmul exact_fpu (u16_to_float exact_fpu 3000)
     (colorByDepth demo_controller))) = 129"
proof -
  have "trunc_rat (- (3000 * (255 / 6000))) = - 127"
    by code_simp
  then show ?thesis by (simp add: exact_fpu_ops demo_color)
qed

text \<open>
  C1: when \<^verbatim>\<open>update()\<close> returns OK, the frame it processed is the one of its last wait,
  and for every pixel \<open>(x, y)\<close> with \<open>x < 640\<close> and \<open>y < 480\<close>, at index
  \<open>y * 640 + x\<close> of that frame: if the raw depth is strictly below \<^verbatim>\<open>depthThresh\<close>
  (signed comparison after integer promotion), the depth matrix holds at row \<open>y\<close>,
  column \<open>639 - x\<close> the narrowing to 8 bits of the negated product of the raw depth and
  \<^verbatim>\<open>colorByDepth\<close>, and the users matrix holds there the label narrowed to 8 bits;
  otherwise both hold 0 there. \<^verbatim>\<open>colorByDepth\<close> is the quotient of 255 and the depth
  threshold as the last \<^verbatim>\<open>init()\<close> computed it: the constructor's, or the one of the
  reset that this \<^verbatim>\<open>update()\<close> went through. Both matrices are the horizontal mirror of
  the temporaries that the loops filled. The floating-point operations are those of the
  parameter \<open>ops\<close>.
\<close>

theorem update_frame_pixels:
  assumes "update n ops dev s = Some (Inr (XN_STATUS_OK, s'))" and "x < 640" and "y < 480"
  shows "rows (depthMatrix s') = 480 \<and> cols (depthMatrix s') = 640 \<and>
         rows (usersMatrix s') = 480 \<and> cols (usersMatrix s') = 640 \<and>
         data (depthMatrix s') ! (y * 640 + (639 - x)) =
           (if ucast (pDepthMap (cam dev (xnContext s' - 1)) (y * 640 + x)) <s depthThresh s'
            then float_to_uchar ops (fneg ops (fmul ops
                   (u16_to_float ops (pDepthMap (cam dev (xnContext s' - 1)) (y * 640 + x)))
                   (colorByDepth s')))
            else 0) \<and>
         data (usersMatrix s') ! (y * 640 + (639 - x)) =
           (if ucast (pDepthMap (cam dev (xnContext s' - 1)) (y * 640 + x)) <s depthThresh s'
            then ucast (pLabels (cam dev (xnContext s' - 1)) (y * 640 + x))
            else 0) \<and>
         depthThresh s' = depthThresh s \<and>
         colorByDepth s' =
           (if maxIterate s <s iterations s
            then fdiv ops (int_to_float ops COLOR_RANGE) (int_to_float ops (depthThresh s))
            else colorByDepth s) \<and>
         colorByDepth (new_KinectController ops dev u i d a) =
           fdiv ops (int_to_float ops COLOR_RANGE) (int_to_float ops d) \<and>
         data (depthMatrix s') ! (y * 640 + x) =
           data (fst (y_loop ops s' (cam dev (xnContext s' - 1)) 0 (zeros 480 640, zeros 480 640)))
             ! (y * 640 + (639 - x)) \<and>
         data (usersMatrix s') ! (y * 640 + x) =
           data (snd (y_loop ops s' (cam dev (xnContext s' - 1)) 0 (zeros 480 640, zeros 480 640)))
             ! (y * 640 + (639 - x))"
proof -
  from update_OK_frame_done [OF assms(1)] obtain s1 where
    s': "s' = frame_done ops dev s1" and
    th: "depthThresh s1 = depthThresh s" and
    cb: "colorByDepth s1 = (if maxIterate s <s iterations s
           then fdiv ops (int_to_float ops COLOR_RANGE) (int_to_float ops (depthThresh s))
           else colorByDepth s)"
    by blast
  let ?f = "cam dev (xnContext s1)"
  let ?t = "y_loop ops s' ?f 0 (zeros 480 640, zeros 480 640)"
  have ctx: "cam dev (xnContext s' - 1) = ?f"
    by (simp add: s' frame_done_fields)
  have x': "639 - x < 640" "639 - (639 - x) = x"
    using assms(2) by simp_all
  have dims: "rows (depthMatrix s') = 480" "cols (depthMatrix s') = 640"
    "rows (usersMatrix s') = 480" "cols (usersMatrix s') = 640"
    by (simp_all add: s' frame_done_dims)
  have d: "data (depthMatrix s') ! (y * 640 + (639 - x)) = depth_px ops s' ?f (y * 640 + x)"
    using frame_done_depth [OF assms(3) x'(1), of ops dev s1]
      depth_px_cong [of s' s1 ops ?f]
    by (simp add: s' x' frame_done_fields)
  have u: "data (usersMatrix s') ! (y * 640 + (639 - x)) = users_px s' ?f (y * 640 + x)"
    using frame_done_users [OF assms(3) x'(1), of ops dev s1]
      users_px_cong [of s' s1 ?f]
    by (simp add: s' x' frame_done_fields)
  have tdims: "rows (fst ?t) = 480" "cols (fst ?t) = 640" "rows (snd ?t) = 480" "cols (snd ?t) = 640"
    using y_loop_dims [of ops s' ?f 0 "(zeros 480 640, zeros 480 640)"]
    by (simp_all add: zeros_fields)
  have md: "data (depthMatrix s') ! (y * 640 + x) = data (fst ?t) ! (y * 640 + (639 - x))"
    using flip_horizontal [of y "fst ?t" x] assms(2,3) frame_done_temporaries(1) [of ops dev s1]
    by (simp add: s' [symmetric] tdims)
  have mu: "data (usersMatrix s') ! (y * 640 + x) = data (snd ?t) ! (y * 640 + (639 - x))"
    using flip_horizontal [of y "snd ?t" x] assms(2,3) frame_done_temporaries(2) [of ops dev s1]
    by (simp add: s' [symmetric] tdims)
  have cfg: "depthThresh s' = depthThresh s" "colorByDepth s' = colorByDepth s1"
    by (simp_all add: s' frame_done_fields th)
  show ?thesis
    unfolding ctx
    using dims d u md mu cfg cb new_colorByDepth [of ops dev u i d a]
    by (simp only: depth_px_def users_px_def)
qed

theorem update_frame_pixels_witness:
  "update 1 exact_fpu demo_device demo_controller =
     Some (Inr (XN_STATUS_OK, frame_done exact_fpu demo_device demo_controller)) \<and>
   (0::nat) < 640 \<and> (2::nat) < 640 \<and> (0::nat) < 480 \<and>
   data (depthMatrix (frame_done exact_fpu demo_device demo_controller)) ! 639 = 129 \<and>
   data (usersMatrix (frame_done exact_fpu demo_device demo_controller)) ! 639 = 2 \<and>
   data (depthMatrix (frame_done exact_fpu demo_device demo_controller)) ! 637 = 0 \<and>
   data (usersMatrix (frame_done exact_fpu demo_device demo_controller)) ! 637 = 0"
proof -
  have x0: "(0::nat) < 640" and x2: "(2::nat) < 640" and y0: "(0::nat) < 480"
    by simp_all
  show ?thesis
    using update_frame_pixels [OF demo_update x0 y0] update_frame_pixels [OF demo_update x2 y0]
      demo_update
    by (simp add: frame_done_fields demo_fields demo_frame_def demo_depth_3000 word_sless_alt)
qed

lemma update_OK_pixels:
  assumes "update n ops dev s = Some (Inr (XN_STATUS_OK, s'))" and "x < 640" and "y < 480"
  shows "data (depthMatrix s') ! (y * 640 + (639 - x)) =
           depth_px ops s' (cam dev (xnContext s' - 1)) (y * 640 + x)"
    and "data (usersMatrix s') ! (y * 640 + (639 - x)) =
           users_px s' (cam dev (xnContext s' - 1)) (y * 640 + x)"
proof -
  from update_OK_frame_done [OF assms(1)] obtain s1 where
    s': "s' = frame_done ops dev s1" by blast
  have x': "639 - x < 640" "639 - (639 - x) = x"
    using assms(2) by simp_all
  show "data (depthMatrix s') ! (y * 640 + (639 - x)) =
           depth_px ops s' (cam dev (xnContext s' - 1)) (y * 640 + x)"
    using frame_done_depth [OF assms(3) x'(1), of ops dev s1]
      depth_px_cong [of s' s1 ops "cam dev (xnContext s1)"]
    by (simp add: s' x' frame_done_fields)
  show "data (usersMatrix s') ! (y * 640 + (639 - x)) =
           users_px s' (cam dev (xnContext s' - 1)) (y * 640 + x)"
    using frame_done_users [OF assms(3) x'(1), of ops dev s1]
      users_px_cong [of s' s1 "cam dev (xnContext s1)"]
    by (simp add: s' x' frame_done_fields)
qed

text \<open>
  C4, as amended: when \<^verbatim>\<open>update()\<close> returns OK, for every pixel \<open>(x, y)\<close> of the frame
  whose raw depth is not below \<^verbatim>\<open>depthThresh\<close>, both matrices hold 0 at row \<open>y\<close>,
  column \<open>639 - x\<close>; for every pixel whose raw depth is below it, the users matrix
  holds there the label narrowed to 8 bits and the depth matrix the narrowed, negated,
  scaled depth. Either of the two may be 0: the label is 0 where no user is tracked.
\<close>

theorem update_threshold_mask:
  assumes "update n ops dev s = Some (Inr (XN_STATUS_OK, s'))" and "x < 640" and "y < 480"
  shows "(\<not> ucast (pDepthMap (cam dev (xnContext s' - 1)) (y * 640 + x)) <s depthThresh s' \<longrightarrow>
            data (depthMatrix s') ! (y * 640 + (639 - x)) = 0 \<and>
            data (usersMatrix s') ! (y * 640 + (639 - x)) = 0) \<and>
         (ucast (pDepthMap (cam dev (xnContext s' - 1)) (y * 640 + x)) <s depthThresh s' \<longrightarrow>
            data (usersMatrix s') ! (y * 640 + (639 - x)) =
              ucast (pLabels (cam dev (xnContext s' - 1)) (y * 640 + x)) \<and>
            data (depthMatrix s') ! (y * 640 + (639 - x)) =
              float_to_uchar ops (fneg ops (fmul ops
                (u16_to_float ops (pDepthMap (cam dev (xnContext s' - 1)) (y * 640 + x)))
                (colorByDepth s'))))"
  using update_OK_pixels [OF assms] by (simp add: depth_px_def users_px_def)

theorem update_threshold_mask_witness:
  "update 1 exact_fpu demo_device demo_controller =
     Some (Inr (XN_STATUS_OK, frame_done exact_fpu demo_device demo_controller)) \<and>
   (0::nat) < 640 \<and> (2::nat) < 640 \<and> (0::nat) < 480 \<and>
   (ucast (pDepthMap demo_frame 0) :: 32 word) <s 6000 \<and>
   \<not> (ucast (pDepthMap demo_frame 2) :: 32 word) <s 6000 \<and>
   data (usersMatrix (frame_done exact_fpu demo_device demo_controller)) ! 639 = 2 \<and>
   data (depthMatrix (frame_done exact_fpu demo_device demo_controller)) ! 637 = 0 \<and>
   data (usersMatrix (frame_done exact_fpu demo_device demo_controller)) ! 637 = 0"
proof -
  have x0: "(0::nat) < 640" and x2: "(2::nat) < 640" and y0: "(0::nat) < 480"
    by simp_all
  show ?thesis
    using update_threshold_mask [OF demo_update x0 y0] update_threshold_mask [OF demo_update x2 y0]
      demo_update
    by (simp add: frame_done_fields demo_fields demo_frame_def word_sless_alt)
qed

text \<open>
  The claim C4 as stated fails: in the session for evaluation, the pixel at index 1 has
  raw depth 0, below the threshold 6000, and label 0, and the users matrix holds 0 at the
  mirrored position.
\<close>

theorem both_nonzero_counterexample:
  "update 1 exact_fpu demo_device demo_controller =
     Some (Inr (XN_STATUS_OK, frame_done exact_fpu demo_device demo_controller)) \<and>
   (ucast (pDepthMap (cam demo_device
       (xnContext (frame_done exact_fpu demo_device demo_controller) - 1)) (0 * 640 + 1)) :: 32 word)
     <s depthThresh (frame_done exact_fpu demo_device demo_controller) \<and>
   \<not> (data (depthMatrix (frame_done exact_fpu demo_device demo_controller)) ! (0 * 640 + (639 - 1)) \<noteq> 0 \<and>
      data (usersMatrix (frame_done exact_fpu demo_device demo_controller)) ! (0 * 640 + (639 - 1)) \<noteq> 0)"
proof -
  have x1: "(1::nat) < 640" and y0: "(0::nat) < 480"
    by simp_all
  show ?thesis
    using update_OK_pixels(2) [OF demo_update x1 y0] demo_update
    by (simp add: users_px_def frame_done_fields demo_fields demo_frame_def word_sless_alt)
qed

section \<open>A threshold that is not positive\<close>


lemma sint_promoted_depth:
  fixes d :: "16 word"
  shows "sint (ucast d :: 32 word) = uint d"
proof -
  have "uint d < 2 ^ 16" using uint_lt2p [of d] by simp
  then have "uint d < 2 ^ 31" by simp
  moreover have "- (2 ^ 31) \<le> (0::int)" by simp
  then have "- (2 ^ 31) \<le> uint d"
    by (rule order_trans) simp
  ultimately have "signed_take_bit 31 (uint d) = uint d"
    by (intro signed_take_bit_int_eq_self) simp_all
  then show ?thesis by (simp add: signed_ucast_eq)
qed

lemma depth_never_below_nonpositive:
  fixes d :: "16 word" and t :: "32 word"
  assumes "t \<le>s 0"
  shows "\<not> ucast d <s t"
proof -
  have "0 \<le> uint d" by simp
  moreover have "sint t \<le> 0" using assms by (simp add: word_sle_eq)
  ultimately have "\<not> uint d < sint t" by linarith
  then show ?thesis by (simp add: word_sless_alt sint_promoted_depth)
qed

lemma px_zero_nonpositive:
  assumes "depthThresh s \<le>s 0"
  shows "depth_px ops s f j = 0" "users_px s f j = 0"
  using depth_never_below_nonpositive [OF assms] by (simp_all add: depth_px_def users_px_def)

lemma index_split:
  fixes j :: nat
  assumes "j < 480 * 640"
  shows "j div 640 < 480" "j mod 640 < 640" "j = (j div 640) * 640 + (639 - (639 - j mod 640))"
proof -
  show "j div 640 < 480" using assms by (simp add: less_mult_imp_div_less)
  show "j mod 640 < 640" by simp
  have "j mod 640 < 640" by simp
  then have "639 - (639 - j mod 640) = j mod 640" by linarith
  then show "j = (j div 640) * 640 + (639 - (639 - j mod 640))" by simp
qed

lemma update_OK_zero:
  assumes "update n ops dev s = Some (Inr (XN_STATUS_OK, s'))" and "depthThresh s \<le>s 0"
  shows "data (depthMatrix s') = replicate (480 * 640) 0"
    and "data (usersMatrix s') = replicate (480 * 640) 0"
proof -
  from update_OK_frame_done [OF assms(1)] obtain s1 where
    s': "s' = frame_done ops dev s1" and th: "depthThresh s1 = depthThresh s" by blast
  have th': "depthThresh s' \<le>s 0"
    using assms(2) by (simp add: s' frame_done_fields th)
  have len: "length (data (depthMatrix s')) = 480 * 640" "length (data (usersMatrix s')) = 480 * 640"
    by (simp_all add: s' frame_done_dims)
  have "data (depthMatrix s') ! j = 0 \<and> data (usersMatrix s') ! j = 0" if "j < 480 * 640" for j
  proof -
    note ix = index_split [OF that]
    have "639 - j mod 640 < 640" by simp
    from update_OK_pixels [OF assms(1) this ix(1)] ix(3) show ?thesis
      by (simp add: px_zero_nonpositive [OF th'])
  qed
  then show "data (depthMatrix s') = replicate (480 * 640) 0"
    and "data (usersMatrix s') = replicate (480 * 640) 0"
    using len by (auto intro!: nth_equalityI)
qed

lemma update_noreset_ok:
  assumes "\<not> maxIterate s <s iterations s" "sdk dev (xnContext s) = XN_STATUS_OK"
    "\<not> maxUsers s <s 0"
  shows "update (Suc n) ops dev s = Some (Inr (XN_STATUS_OK, frame_done ops dev s))"
  using assms by (simp add: update_Suc acquire_def)

lemma setDepth_fields:
  "xnContext (setDepth k s) = xnContext s"
  "xnRetVal (setDepth k s) = xnRetVal s"
  "maxUsers (setDepth k s) = maxUsers s"
  "maxIterate (setDepth k s) = maxIterate s"
  "iterations (setDepth k s) = iterations s"
  "depthThresh (setDepth k s) = depthThresh s + k"
  "colorByDepth (setDepth k s) = colorByDepth s"
  "depthMatrix (setDepth k s) = depthMatrix s"
  "usersMatrix (setDepth k s) = usersMatrix s"
  "nuiMotor (setDepth k s) = nuiMotor s"
  "initAngle (setDepth k s) = initAngle s"
  "nuiAngle (setDepth k s) = nuiAngle s"
  "resetCount (setDepth k s) = resetCount s"
  by (simp_all add: setDepth_def)

text \<open>
  C10: if the stored depth threshold is not positive, a state that \<^verbatim>\<open>setDepth\<close> reaches
  with a negative delta, then every \<^verbatim>\<open>update()\<close> that returns OK leaves both matrices
  entirely zero: a depth sample is unsigned, so none is strictly below such a threshold.
  The threshold is still the same afterwards, so this holds for every later frame too.
  \<^verbatim>\<open>update()\<close> itself does not recompute \<^verbatim>\<open>colorByDepth\<close>: when no reset is due it
  is unchanged. The statement holds for every floating-point unit, so whatever a
  division by the threshold would give has no part in it.
\<close>

theorem nonpositive_threshold_blank:
  assumes "update n ops dev s = Some (Inr (XN_STATUS_OK, s'))" and "depthThresh s \<le>s 0"
  shows "data (depthMatrix s') = replicate (480 * 640) 0 \<and>
         data (usersMatrix s') = replicate (480 * 640) 0 \<and>
         rows (depthMatrix s') = 480 \<and> cols (depthMatrix s') = 640 \<and>
         rows (usersMatrix s') = 480 \<and> cols (usersMatrix s') = 640 \<and>
         depthThresh s' = depthThresh s \<and>
         (\<not> maxIterate s <s iterations s \<longrightarrow> colorByDepth s' = colorByDepth s)"
proof -
  from update_OK_frame_done [OF assms(1)] obtain s1 where
    s': "s' = frame_done ops dev s1" and
    th: "depthThresh s1 = depthThresh s" and
    cb: "colorByDepth s1 = (if maxIterate s <s iterations s
           then fdiv ops (int_to_float ops COLOR_RANGE) (int_to_float ops (depthThresh s))
           else colorByDepth s)"
    by blast
  show ?thesis
    using update_OK_zero [OF assms] th cb
    by (simp add: s' frame_done_fields frame_done_dims)
qed

theorem nonpositive_threshold_blank_witness:
  "update 1 exact_fpu demo_device (setDepth (- 6000) demo_controller) =
     Some (Inr (XN_STATUS_OK, frame_done exact_fpu demo_device (setDepth (- 6000) demo_controller))) \<and>
   depthThresh (setDepth (- 6000) demo_controller) \<le>s 0 \<and>
   \<not> maxIterate (setDepth (- 6000) demo_controller) <s iterations (setDepth (- 6000) demo_controller) \<and>
   data (depthMatrix (frame_done exact_fpu demo_device (setDepth (- 6000) demo_controller))) =
     replicate (480 * 640) 0 \<and>
   data (usersMatrix (frame_done exact_fpu demo_device (setDepth (- 6000) demo_controller))) =
     replicate (480 * 640) 0 \<and>
   colorByDepth (frame_done exact_fpu demo_device (setDepth (- 6000) demo_controller)) =
     colorByDepth (setDepth (- 6000) demo_controller)"
proof -
  have u: "update 1 exact_fpu demo_device (setDepth (- 6000) demo_controller) =
     Some (Inr (XN_STATUS_OK, frame_done exact_fpu demo_device (setDepth (- 6000) demo_controller)))"
    unfolding One_nat_def
    by (rule update_noreset_ok) (simp_all add: setDepth_fields demo_fields word_sless_alt)
  have t: "depthThresh (setDepth (- 6000) demo_controller) \<le>s 0"
    by (simp add: setDepth_fields demo_fields)
  have i: "\<not> maxIterate (setDepth (- 6000) demo_controller) <s iterations (setDepth (- 6000) demo_controller)"
    by (simp add: setDepth_fields demo_fields word_sless_alt)
  show ?thesis
    using nonpositive_threshold_blank [OF u t] u t i by simp
qed

section \<open>The size of the matrices\<close>








lemma reset_ok:
  assumes "\<not> maxIterate s <s 0" "sdk dev (xnContext (reinit ops dev s)) = XN_STATUS_OK"
    "\<not> maxUsers s <s 0"
  shows "reset (Suc (Suc n)) ops dev s =
           Some (Inr (XN_STATUS_OK, frame_done ops dev (reinit ops dev s)))"
proof -
  have "update (Suc n) ops dev (reinit ops dev s) =
          Some (Inr (XN_STATUS_OK, frame_done ops dev (reinit ops dev s)))"
    using assms by (intro update_noreset_ok) (simp_all add: reinit_fields)
  then show ?thesis
    using assms(2) by (simp add: reset_Suc frame_done_fields)
qed






section \<open>Statuses of the re-initialisation\<close>

lemma initDepthControl_all_ok:
  assumes "sdk dev (xnContext s) = XN_STATUS_OK" "sdk dev (Suc (xnContext s)) = XN_STATUS_OK"
    "sdk dev (Suc (Suc (xnContext s))) = XN_STATUS_OK"
    "sdk dev (Suc (Suc (Suc (xnContext s)))) = XN_STATUS_OK"
    "sdk dev (Suc (Suc (Suc (Suc (xnContext s))))) = XN_STATUS_OK"
  shows "xnContext (snd (initDepthControl dev s)) = xnContext s + 5"
    and "xnRetVal (snd (initDepthControl dev s)) = XN_STATUS_OK"
  using assms by (simp_all add: initDepthControl_def sdk_call_def Let_def)

lemma initDepthControl_start_fails:
  assumes "sdk dev (xnContext s) = XN_STATUS_OK" "sdk dev (Suc (xnContext s)) = XN_STATUS_OK"
    "sdk dev (Suc (Suc (xnContext s))) = XN_STATUS_OK"
    "sdk dev (Suc (Suc (Suc (xnContext s)))) = XN_STATUS_OK"
    "sdk dev (Suc (Suc (Suc (Suc (xnContext s))))) \<noteq> XN_STATUS_OK"
  shows "xnContext (snd (initDepthControl dev s)) = xnContext s + 5"
    and "xnRetVal (snd (initDepthControl dev s)) = sdk dev (Suc (Suc (Suc (Suc (xnContext s)))))"
  using assms by (simp_all add: initDepthControl_def sdk_call_def Let_def)

lemma init_all_ok:
  assumes "sdk dev (xnContext s) = XN_STATUS_OK" "sdk dev (Suc (xnContext s)) = XN_STATUS_OK"
    "sdk dev (Suc (Suc (xnContext s))) = XN_STATUS_OK"
    "sdk dev (Suc (Suc (Suc (xnContext s)))) = XN_STATUS_OK"
    "sdk dev (Suc (Suc (Suc (Suc (xnContext s))))) = XN_STATUS_OK"
  shows "xnContext (snd (init ops dev s)) = xnContext s + 5"
    and "xnRetVal (snd (init ops dev s)) = XN_STATUS_OK"
    and "fst (init ops dev s) = XN_STATUS_OK"
    and "nuiMotor (snd (init ops dev s)) = nuiAngle s"
proof -
  let ?s1 = "s\<lparr>colorByDepth :=
                   fdiv ops (int_to_float ops COLOR_RANGE) (int_to_float ops (depthThresh s)),
                 iterations := 0, depthMatrix := zeros 480 640, usersMatrix := zeros 480 640\<rparr>"
  have "xnContext (snd (initDepthControl dev ?s1)) = xnContext s + 5"
    "xnRetVal (snd (initDepthControl dev ?s1)) = XN_STATUS_OK"
    using initDepthControl_all_ok [of dev ?s1] assms by simp_all
  then show "xnContext (snd (init ops dev s)) = xnContext s + 5"
    and "xnRetVal (snd (init ops dev s)) = XN_STATUS_OK"
    and "fst (init ops dev s) = XN_STATUS_OK"
    and "nuiMotor (snd (init ops dev s)) = nuiAngle s"
    by (simp_all add: init_def Let_def initMotorControl_def initDepthControl_keeps)
qed

lemma init_start_fails:
  assumes "sdk dev (xnContext s) = XN_STATUS_OK" "sdk dev (Suc (xnContext s)) = XN_STATUS_OK"
    "sdk dev (Suc (Suc (xnContext s))) = XN_STATUS_OK"
    "sdk dev (Suc (Suc (Suc (xnContext s)))) = XN_STATUS_OK"
    "sdk dev (Suc (Suc (Suc (Suc (xnContext s))))) \<noteq> XN_STATUS_OK"
  shows "xnContext (snd (init ops dev s)) = xnContext s + 5"
    and "fst (init ops dev s) = sdk dev (Suc (Suc (Suc (Suc (xnContext s)))))"
    and "nuiMotor (snd (init ops dev s)) = nuiMotor s"
proof -
  let ?s1 = "s\<lparr>colorByDepth :=
                   fdiv ops (int_to_float ops COLOR_RANGE) (int_to_float ops (depthThresh s)),
                 iterations := 0, depthMatrix := zeros 480 640, usersMatrix := zeros 480 640\<rparr>"
  have "xnContext (snd (initDepthControl dev ?s1)) = xnContext s + 5"
    "xnRetVal (snd (initDepthControl dev ?s1)) = sdk dev (Suc (Suc (Suc (Suc (xnContext s)))))"
    using initDepthControl_start_fails [of dev ?s1] assms by simp_all
  then show "xnContext (snd (init ops dev s)) = xnContext s + 5"
    and "fst (init ops dev s) = sdk dev (Suc (Suc (Suc (Suc (xnContext s)))))"
    and "nuiMotor (snd (init ops dev s)) = nuiMotor s"
    using assms(5) by (simp_all add: init_def Let_def initDepthControl_keeps)
qed

lemma new_context:
  assumes "sdk dev 0 = XN_STATUS_OK" "sdk dev 1 = XN_STATUS_OK" "sdk dev 2 = XN_STATUS_OK"
    "sdk dev 3 = XN_STATUS_OK" "sdk dev 4 = XN_STATUS_OK"
  shows "xnContext (new_KinectController ops dev u i d a) = 5"
    and "xnRetVal (new_KinectController ops dev u i d a) = XN_STATUS_OK"
  unfolding new_KinectController_def
  using assms by (simp_all add: init_all_ok numeral_eq_Suc)

lemma flaky_fields:
  "maxUsers flaky_controller = 6" "maxIterate flaky_controller = 2"
  "iterations flaky_controller = 0" "depthThresh flaky_controller = 6000"
  "resetCount flaky_controller = 0" "xnContext flaky_controller = 5"
  "cam flaky_device k = demo_frame"
  by (simp_all add: flaky_controller_def new_fields new_context flaky_device_def)

text \<open>The state in which \<^verbatim>\<open>reset()\<close> calls \<^verbatim>\<open>init()\<close>.\<close>

lemma flaky_reinit:
  "fst (init exact_fpu flaky_device
     ((kinectCleanupExit (flaky_controller\<lparr>resetCount := Suc (resetCount flaky_controller)\<rparr>))
        \<lparr>iterations := 0\<rparr>)) = 1"
  "xnContext (reinit exact_fpu flaky_device flaky_controller) = 10"
  unfolding reinit_def
  by (simp_all add: init_start_fails kinectCleanupExit_def stopDepthControl_def stopMotorControl_def flaky_fields flaky_device_def
      XN_STATUS_OK_def)

text \<open>
  C9 says that \<^verbatim>\<open>reset()\<close> returns a status that is not OK whenever a step of its
  re-initialisation fails. The code does not do that: \<^verbatim>\<open>reset()\<close> drops the status that
  \<^verbatim>\<open>init()\<close> returns and calls \<^verbatim>\<open>update()\<close>, whose wait overwrites \<^verbatim>\<open>xnRetVal\<close>.
  Here \<^verbatim>\<open>StartGeneratingAll\<close> fails with status 1 inside the \<^verbatim>\<open>init()\<close> of the reset,
  the wait that follows succeeds, and \<^verbatim>\<open>reset()\<close> returns OK.
\<close>

theorem reset_reports_ok_after_failed_init:
  "fst (init exact_fpu flaky_device
     ((kinectCleanupExit (flaky_controller\<lparr>resetCount := Suc (resetCount flaky_controller)\<rparr>))
        \<lparr>iterations := 0\<rparr>)) = 1 \<and>
   (1 :: XnStatus) \<noteq> XN_STATUS_OK \<and>
   reset 2 exact_fpu flaky_device flaky_controller =
     Some (Inr (XN_STATUS_OK,
       frame_done exact_fpu flaky_device (reinit exact_fpu flaky_device flaky_controller)))"
proof -
  have "reset 2 exact_fpu flaky_device flaky_controller =
     Some (Inr (XN_STATUS_OK,
       frame_done exact_fpu flaky_device (reinit exact_fpu flaky_device flaky_controller)))"
    unfolding numeral_2_eq_2
    by (rule reset_ok) (simp_all add: flaky_fields flaky_reinit word_sless_alt,
        simp add: flaky_device_def)
  then show ?thesis by (simp add: flaky_reinit XN_STATUS_OK_def)
qed

text \<open>
  C8 says that \<^verbatim>\<open>setDepth\<close> also recomputes \<^verbatim>\<open>colorByDepth\<close>. The code only adds the
  delta to \<^verbatim>\<open>depthThresh\<close>: \<^verbatim>\<open>colorByDepth\<close> keeps the value of the last \<^verbatim>\<open>init()\<close>.
  After \<^verbatim>\<open>setDepth(1000)\<close> on a controller constructed with threshold 6000 the
  threshold is 7000 and the scale is still 255/6000, not 255/7000.
\<close>

theorem setDepth_keeps_stale_scale:
  "depthThresh (setDepth delta s) = depthThresh s + delta \<and>
   colorByDepth (setDepth delta s) = colorByDepth s \<and>
   depthThresh (setDepth 1000 demo_controller) = 7000 \<and>
   colorByDepth (setDepth 1000 demo_controller) = 255 / 6000 \<and>
   fdiv exact_fpu (int_to_float exact_fpu COLOR_RANGE)
     (int_to_float exact_fpu (depthThresh (setDepth 1000 demo_controller))) = 255 / 7000 \<and>
   colorByDepth (setDepth 1000 demo_controller) \<noteq>
     fdiv exact_fpu (int_to_float exact_fpu COLOR_RANGE)
       (int_to_float exact_fpu (depthThresh (setDepth 1000 demo_controller)))"
  by (simp add: setDepth_fields demo_fields demo_color exact_fpu_ops COLOR_RANGE_def)

section \<open>The iteration counter\<close>

lemma update_noreset_failed:
  assumes "\<not> maxIterate s <s iterations s" "sdk dev (xnContext s) \<noteq> XN_STATUS_OK"
  shows "update (Suc n) ops dev s = Some (Inr (sdk dev (xnContext s), sdk_call dev s))"
  using assms by (simp add: update_Suc acquire_def)

lemma update_reset_ok:
  assumes "maxIterate s <s iterations s" "\<not> maxIterate s <s 0" "\<not> maxUsers s <s 0"
    "sdk dev (xnContext (reinit ops dev s)) = XN_STATUS_OK"
    "sdk dev (Suc (xnContext (reinit ops dev s))) = XN_STATUS_OK"
  shows "update (Suc (Suc (Suc n))) ops dev s =
           Some (Inr (XN_STATUS_OK, frame_done ops dev (frame_done ops dev (reinit ops dev s))))"
proof -
  have "reset (Suc (Suc n)) ops dev s =
          Some (Inr (XN_STATUS_OK, frame_done ops dev (reinit ops dev s)))"
    using assms(2,4,3) by (rule reset_ok)
  then show ?thesis
    using assms
    by (simp add: update_Suc [of "Suc (Suc n)"] acquire_def frame_done_fields reinit_fields)
qed

lemma demo_three_updates:
  "run 1 exact_fpu demo_device [Update, Update, Update] demo_controller = Some (Inr demo_after3)"
proof -
  let ?s1 = "frame_done exact_fpu demo_device demo_controller"
  let ?s2 = "frame_done exact_fpu demo_device ?s1"
  have 1: "update 1 exact_fpu demo_device demo_controller = Some (Inr (XN_STATUS_OK, ?s1))"
    by (rule demo_update)
  have 2: "update 1 exact_fpu demo_device ?s1 = Some (Inr (XN_STATUS_OK, ?s2))"
    unfolding One_nat_def
    by (rule update_noreset_ok) (simp_all add: frame_done_fields demo_fields word_sless_alt)
  have 3: "update 1 exact_fpu demo_device ?s2 = Some (Inr (XN_STATUS_OK, demo_after3))"
    unfolding One_nat_def demo_after3_def
    by (rule update_noreset_ok) (simp_all add: frame_done_fields demo_fields word_sless_alt)
  show ?thesis by (simp add: 1 [unfolded One_nat_def] 2 [unfolded One_nat_def] 3 [unfolded One_nat_def])
qed

lemma demo_after3_fields:
  "maxUsers demo_after3 = 6" "maxIterate demo_after3 = 2" "iterations demo_after3 = 3"
  "resetCount demo_after3 = 0"
  by (simp_all add: demo_after3_def frame_done_fields demo_fields)

lemma demo_fourth_update:
  "update 3 exact_fpu demo_device demo_after3 = Some (Inr (XN_STATUS_OK, demo_after4))"
  unfolding numeral_3_eq_3 demo_after4_def
  by (rule update_reset_ok) (simp_all add: demo_after3_fields demo_fields word_sless_alt)

lemma demo_after4_fields:
  "maxUsers demo_after4 = 6" "maxIterate demo_after4 = 2" "iterations demo_after4 = 2"
  "resetCount demo_after4 = 1"
  by (simp_all add: demo_after4_def frame_done_fields reinit_fields demo_after3_fields)

lemma deaf_fields:
  "maxUsers deaf_controller = 6" "maxIterate deaf_controller = 2"
  "iterations deaf_controller = 0" "depthThresh deaf_controller = 6000"
  "resetCount deaf_controller = 0" "xnContext deaf_controller = 5"
  "depthMatrix deaf_controller = zeros 480 640" "usersMatrix deaf_controller = zeros 480 640"
  by (simp_all add: deaf_controller_def new_fields new_context deaf_device_def)

lemma reset_path:
  assumes due: "maxIterate s <s iterations s"
    and ret: "update m ops dev s = Some (Inr (rc, s'))"
  shows "\<not> maxIterate s <s 0"
    and "resetCount s' = Suc (resetCount s)"
    and "rc = sdk dev (Suc (xnContext (reinit ops dev s)))"
    and "iterations s' =
           (if sdk dev (xnContext (reinit ops dev s)) = XN_STATUS_OK then 1 else 0) +
           (if rc = XN_STATUS_OK then 1 else 0)"
    and "rc \<noteq> XN_STATUS_OK \<Longrightarrow>
           depthMatrix s' =
             (if sdk dev (xnContext (reinit ops dev s)) = XN_STATUS_OK
              then depthMatrix (frame_done ops dev (reinit ops dev s)) else zeros 480 640) \<and>
           usersMatrix s' =
             (if sdk dev (xnContext (reinit ops dev s)) = XN_STATUS_OK
              then usersMatrix (frame_done ops dev (reinit ops dev s)) else zeros 480 640)"
proof -
  let ?t = "reinit ops dev s"
  from update_returns_acquire [OF ret] due obtain s1 k rc1 where
    a2: "acquire ops dev s1 = Some (Inr (rc, s'))" and
    r: "reset k ops dev s = Some (Inr (rc1, s1))"
    by auto
  show nonneg: "\<not> maxIterate s <s 0"
  proof
    assume "maxIterate s <s 0"
    with update_never_returns [of k ops dev] have "reset k ops dev s = None" by blast
    with r show False by simp
  qed
  from reset_returns_update [OF r] obtain j rc2 where
    u: "update j ops dev ?t = Some (Inr (rc2, s1))" by auto
  have "\<not> maxIterate ?t <s iterations ?t"
    using nonneg by (simp add: reinit_fields)
  with update_returns_acquire [OF u] have a1: "acquire ops dev ?t = Some (Inr (rc2, s1))"
    by auto
  have s1: "xnContext s1 = Suc (xnContext ?t)" "resetCount s1 = Suc (resetCount s)"
    "iterations s1 = (if sdk dev (xnContext ?t) = XN_STATUS_OK then 1 else 0)"
    "depthMatrix s1 = (if sdk dev (xnContext ?t) = XN_STATUS_OK
        then depthMatrix (frame_done ops dev ?t) else zeros 480 640)"
    "usersMatrix s1 = (if sdk dev (xnContext ?t) = XN_STATUS_OK
        then usersMatrix (frame_done ops dev ?t) else zeros 480 640)"
    using a1
    by (auto simp add: acquire_def sdk_call_fields frame_done_fields reinit_fields
        split: if_splits)
  show "resetCount s' = Suc (resetCount s)"
    using a2 s1(2)
    by (auto simp add: acquire_def sdk_call_fields frame_done_fields split: if_splits)
  show "rc = sdk dev (Suc (xnContext ?t))"
    using a2 s1(1) by (auto simp add: acquire_def split: if_splits)
  show "iterations s' =
           (if sdk dev (xnContext ?t) = XN_STATUS_OK then 1 else 0) +
           (if rc = XN_STATUS_OK then 1 else 0)"
    using a2 s1(3)
    by (auto simp add: acquire_def sdk_call_fields frame_done_fields split: if_splits)
  show "depthMatrix s' =
             (if sdk dev (xnContext ?t) = XN_STATUS_OK
              then depthMatrix (frame_done ops dev ?t) else zeros 480 640) \<and>
           usersMatrix s' =
             (if sdk dev (xnContext ?t) = XN_STATUS_OK
              then usersMatrix (frame_done ops dev ?t) else zeros 480 640)"
    if "rc \<noteq> XN_STATUS_OK"
    using acquire_failed [OF a2 that] s1(4,5) by (simp add: sdk_call_fields)
qed

lemma update_reset_outer_failed:
  assumes "maxIterate s <s iterations s" "\<not> maxIterate s <s 0" "\<not> maxUsers s <s 0"
    "sdk dev (xnContext (reinit ops dev s)) = XN_STATUS_OK"
    "sdk dev (Suc (xnContext (reinit ops dev s))) \<noteq> XN_STATUS_OK"
  shows "update (Suc (Suc (Suc n))) ops dev s =
           Some (Inr (sdk dev (Suc (xnContext (reinit ops dev s))),
             sdk_call dev (frame_done ops dev (reinit ops dev s))))"
proof -
  have "reset (Suc (Suc n)) ops dev s =
          Some (Inr (XN_STATUS_OK, frame_done ops dev (reinit ops dev s)))"
    using assms(2,4,3) by (rule reset_ok)
  then show ?thesis
    using assms
    by (simp add: update_Suc [of "Suc (Suc n)"] acquire_def frame_done_fields)
qed

lemma reinit_context:
  assumes "sdk dev (xnContext s) = XN_STATUS_OK" "sdk dev (Suc (xnContext s)) = XN_STATUS_OK"
    "sdk dev (Suc (Suc (xnContext s))) = XN_STATUS_OK"
    "sdk dev (Suc (Suc (Suc (xnContext s)))) = XN_STATUS_OK"
    "sdk dev (Suc (Suc (Suc (Suc (xnContext s))))) = XN_STATUS_OK"
  shows "xnContext (reinit ops dev s) = xnContext s + 5"
  unfolding reinit_def
  using assms
  by (subst init_all_ok) (simp_all add: kinectCleanupExit_def stopDepthControl_def stopMotorControl_def)

lemma late_fields:
  "maxUsers late_after3 = 6" "maxIterate late_after3 = 2" "iterations late_after3 = 3"
  "resetCount late_after3 = 0" "xnContext late_after3 = 8"
  by (simp_all add: late_after3_def frame_done_fields late_controller_def new_fields
      new_context late_device_def)

lemma late_reinit_context: "xnContext (reinit exact_fpu late_device late_after3) = 13"
  by (subst reinit_context) (simp_all add: late_fields, simp_all add: late_device_def)

lemma late_fourth_update:
  "update 3 exact_fpu late_device late_after3 =
     Some (Inr (7, sdk_call late_device
       (frame_done exact_fpu late_device (reinit exact_fpu late_device late_after3))))"
proof -
  have "sdk late_device (Suc (xnContext (reinit exact_fpu late_device late_after3))) = 7"
    unfolding late_reinit_context by (simp add: late_device_def)
  moreover have "update (Suc (Suc (Suc 0))) exact_fpu late_device late_after3 =
     Some (Inr (sdk late_device (Suc (xnContext (reinit exact_fpu late_device late_after3))),
       sdk_call late_device
         (frame_done exact_fpu late_device (reinit exact_fpu late_device late_after3))))"
    by (rule update_reset_outer_failed)
      (simp_all add: late_fields late_reinit_context word_sless_alt,
        simp_all add: late_device_def XN_STATUS_OK_def)
  ultimately show ?thesis by (simp only: numeral_3_eq_3)
qed

text \<open>
  C6, as amended: when no reset is due at entry (the counter does not exceed
  \<^verbatim>\<open>maxIterate\<close>), \<^verbatim>\<open>update()\<close> returns or throws; if it returns OK the counter has
  gone up by exactly one; if it returns another status, that status is the one of the
  failed wait, and the counter and both matrices are as they were. A failed wait does
  return its status. When a reset is due and \<^verbatim>\<open>update()\<close> returns, the iteration limit
  is not negative, exactly one \<^verbatim>\<open>reset()\<close> has run, the status returned is that of the
  wait of \<^verbatim>\<open>update()\<close> itself, and the counter is the number of waits that succeeded
  among the one inside \<^verbatim>\<open>reset()\<close> and that one: 2 after a call that succeeded
  throughout. If the wait of \<^verbatim>\<open>update()\<close> itself failed, the matrices are those that the
  reset left: all zero if the wait inside \<^verbatim>\<open>reset()\<close> failed too, the frame processed
  inside \<^verbatim>\<open>reset()\<close> otherwise. With an iteration limit that is not negative such a
  call returns or throws.
\<close>

theorem update_counts_frames:
  "(\<not> maxIterate s <s iterations s \<longrightarrow>
      update (Suc n) ops dev s \<noteq> None \<and>
      (update (Suc n) ops dev s = Some (Inr (rc, s')) \<longrightarrow>
         (rc = XN_STATUS_OK \<longrightarrow> iterations s' = iterations s + 1) \<and>
         (rc \<noteq> XN_STATUS_OK \<longrightarrow>
            rc = sdk dev (xnContext s) \<and> iterations s' = iterations s \<and>
            depthMatrix s' = depthMatrix s \<and> usersMatrix s' = usersMatrix s)) \<and>
      (sdk dev (xnContext s) \<noteq> XN_STATUS_OK \<longrightarrow>
         update (Suc n) ops dev s = Some (Inr (sdk dev (xnContext s), sdk_call dev s)))) \<and>
   (maxIterate s <s iterations s \<longrightarrow>
      (\<not> maxIterate s <s 0 \<longrightarrow> update (Suc (Suc (Suc n))) ops dev s \<noteq> None) \<and>
      (update m ops dev s = Some (Inr (rc, s')) \<longrightarrow>
         \<not> maxIterate s <s 0 \<and>
         resetCount s' = Suc (resetCount s) \<and>
         rc = sdk dev (Suc (xnContext (reinit ops dev s))) \<and>
         iterations s' =
           (if sdk dev (xnContext (reinit ops dev s)) = XN_STATUS_OK then 1 else 0) +
           (if rc = XN_STATUS_OK then 1 else 0) \<and>
         (rc \<noteq> XN_STATUS_OK \<longrightarrow>
            depthMatrix s' =
              (if sdk dev (xnContext (reinit ops dev s)) = XN_STATUS_OK
               then depthMatrix (frame_done ops dev (reinit ops dev s)) else zeros 480 640) \<and>
            usersMatrix s' =
              (if sdk dev (xnContext (reinit ops dev s)) = XN_STATUS_OK
               then usersMatrix (frame_done ops dev (reinit ops dev s)) else zeros 480 640))))"
proof -
  have direct: "update (Suc n) ops dev s \<noteq> None \<and>
      (update (Suc n) ops dev s = Some (Inr (rc, s')) \<longrightarrow>
         (rc = XN_STATUS_OK \<longrightarrow> iterations s' = iterations s + 1) \<and>
         (rc \<noteq> XN_STATUS_OK \<longrightarrow>
            rc = sdk dev (xnContext s) \<and> iterations s' = iterations s \<and>
            depthMatrix s' = depthMatrix s \<and> usersMatrix s' = usersMatrix s)) \<and>
      (sdk dev (xnContext s) \<noteq> XN_STATUS_OK \<longrightarrow>
         update (Suc n) ops dev s = Some (Inr (sdk dev (xnContext s), sdk_call dev s)))"
    if nd: "\<not> maxIterate s <s iterations s"
  proof -
    have eq: "update (Suc n) ops dev s = acquire ops dev s"
      using nd by (simp add: update_Suc)
    have "acquire ops dev s \<noteq> None"
      by (simp add: acquire_def)
    moreover have "iterations s' = iterations s + 1"
      if "acquire ops dev s = Some (Inr (rc, s'))" "rc = XN_STATUS_OK"
      using acquire_OK [of ops dev s s'] that by (simp add: frame_done_fields)
    moreover have "rc = sdk dev (xnContext s) \<and> iterations s' = iterations s \<and>
        depthMatrix s' = depthMatrix s \<and> usersMatrix s' = usersMatrix s"
      if "acquire ops dev s = Some (Inr (rc, s'))" "rc \<noteq> XN_STATUS_OK"
      using acquire_failed [OF that] by (simp add: sdk_call_fields)
    moreover have "acquire ops dev s = Some (Inr (sdk dev (xnContext s), sdk_call dev s))"
      if "sdk dev (xnContext s) \<noteq> XN_STATUS_OK"
      using that by (simp add: acquire_def)
    ultimately show ?thesis unfolding eq by blast
  qed
  have through: "(\<not> maxIterate s <s 0 \<longrightarrow> update (Suc (Suc (Suc n))) ops dev s \<noteq> None) \<and>
      (update m ops dev s = Some (Inr (rc, s')) \<longrightarrow>
         \<not> maxIterate s <s 0 \<and>
         resetCount s' = Suc (resetCount s) \<and>
         rc = sdk dev (Suc (xnContext (reinit ops dev s))) \<and>
         iterations s' =
           (if sdk dev (xnContext (reinit ops dev s)) = XN_STATUS_OK then 1 else 0) +
           (if rc = XN_STATUS_OK then 1 else 0) \<and>
         (rc \<noteq> XN_STATUS_OK \<longrightarrow>
            depthMatrix s' =
              (if sdk dev (xnContext (reinit ops dev s)) = XN_STATUS_OK
               then depthMatrix (frame_done ops dev (reinit ops dev s)) else zeros 480 640) \<and>
            usersMatrix s' =
              (if sdk dev (xnContext (reinit ops dev s)) = XN_STATUS_OK
               then usersMatrix (frame_done ops dev (reinit ops dev s)) else zeros 480 640)))"
    if due: "maxIterate s <s iterations s"
    using update_returns [of s n ops dev] reset_path [OF due, of m ops dev rc s'] by blast
  from direct through show ?thesis by blast
qed

theorem update_counts_frames_witness:
  "\<not> maxIterate demo_controller <s iterations demo_controller \<and>
   update (Suc 0) exact_fpu demo_device demo_controller =
     Some (Inr (XN_STATUS_OK, frame_done exact_fpu demo_device demo_controller)) \<and>
   iterations (frame_done exact_fpu demo_device demo_controller) = iterations demo_controller + 1 \<and>
   \<not> maxIterate deaf_controller <s iterations deaf_controller \<and>
   sdk deaf_device (xnContext deaf_controller) \<noteq> XN_STATUS_OK \<and>
   update (Suc 0) exact_fpu deaf_device deaf_controller =
     Some (Inr (7, sdk_call deaf_device deaf_controller)) \<and>
   (7 :: XnStatus) \<noteq> XN_STATUS_OK \<and>
   iterations (sdk_call deaf_device deaf_controller) = iterations deaf_controller \<and>
   depthMatrix (sdk_call deaf_device deaf_controller) = depthMatrix deaf_controller \<and>
   usersMatrix (sdk_call deaf_device deaf_controller) = usersMatrix deaf_controller \<and>
   maxIterate demo_after3 <s iterations demo_after3 \<and> \<not> maxIterate demo_after3 <s 0 \<and>
   update 3 exact_fpu demo_device demo_after3 = Some (Inr (XN_STATUS_OK, demo_after4)) \<and>
   resetCount demo_after4 = Suc (resetCount demo_after3) \<and>
   iterations demo_after4 = 2 \<and>
   maxIterate late_after3 <s iterations late_after3 \<and>
   update 3 exact_fpu late_device late_after3 =
     Some (Inr (7, sdk_call late_device
       (frame_done exact_fpu late_device (reinit exact_fpu late_device late_after3)))) \<and>
   resetCount (sdk_call late_device
       (frame_done exact_fpu late_device (reinit exact_fpu late_device late_after3))) =
     Suc (resetCount late_after3) \<and>
   iterations (sdk_call late_device
       (frame_done exact_fpu late_device (reinit exact_fpu late_device late_after3))) = 1 \<and>
   depthMatrix (sdk_call late_device
       (frame_done exact_fpu late_device (reinit exact_fpu late_device late_after3))) =
     depthMatrix (frame_done exact_fpu late_device (reinit exact_fpu late_device late_after3)) \<and>
   usersMatrix (sdk_call late_device
       (frame_done exact_fpu late_device (reinit exact_fpu late_device late_after3))) =
     usersMatrix (frame_done exact_fpu late_device (reinit exact_fpu late_device late_after3))"
proof -
  let ?L = "sdk_call late_device
       (frame_done exact_fpu late_device (reinit exact_fpu late_device late_after3))"
  have a: "\<not> maxIterate demo_controller <s iterations demo_controller"
    by (simp add: demo_fields word_sless_alt)
  have b: "\<not> maxIterate deaf_controller <s iterations deaf_controller"
    by (simp add: deaf_fields word_sless_alt)
  have c: "sdk deaf_device (xnContext deaf_controller) = 7"
    by (simp add: deaf_fields deaf_device_def)
  have d: "(7 :: XnStatus) \<noteq> XN_STATUS_OK"
    by (simp add: XN_STATUS_OK_def)
  have c': "sdk deaf_device (xnContext deaf_controller) \<noteq> XN_STATUS_OK"
    by (simp only: c d not_False_eq_True)
  have u: "update (Suc 0) exact_fpu demo_device demo_controller =
     Some (Inr (XN_STATUS_OK, frame_done exact_fpu demo_device demo_controller))"
    using demo_update by simp
  have e: "maxIterate demo_after3 <s iterations demo_after3" "\<not> maxIterate demo_after3 <s 0"
    by (simp_all add: demo_after3_fields word_sless_alt)
  have f: "maxIterate late_after3 <s iterations late_after3"
    by (simp add: late_fields word_sless_alt)
  have w: "sdk late_device (xnContext (reinit exact_fpu late_device late_after3)) = XN_STATUS_OK"
    unfolding late_reinit_context by (simp add: late_device_def)
  note ok = update_counts_frames [where s = demo_controller and n = 0 and ops = exact_fpu
        and dev = demo_device and rc = XN_STATUS_OK
        and s' = "frame_done exact_fpu demo_device demo_controller"]
  note failed = update_counts_frames [where s = deaf_controller and n = 0 and ops = exact_fpu
        and dev = deaf_device and rc = 7 and s' = "sdk_call deaf_device deaf_controller"]
  note through = update_counts_frames [where s = demo_after3 and m = 3 and ops = exact_fpu
        and dev = demo_device and rc = XN_STATUS_OK and s' = demo_after4]
  note late = update_counts_frames [where s = late_after3 and m = 3 and ops = exact_fpu
        and dev = late_device and rc = 7 and s' = ?L]
  from ok a u have i1:
    "iterations (frame_done exact_fpu demo_device demo_controller) = iterations demo_controller + 1"
    by blast
  from failed b c' have "update (Suc 0) exact_fpu deaf_device deaf_controller =
     Some (Inr (sdk deaf_device (xnContext deaf_controller), sdk_call deaf_device deaf_controller))"
    by blast
  then have v: "update (Suc 0) exact_fpu deaf_device deaf_controller =
     Some (Inr (7, sdk_call deaf_device deaf_controller))"
    by (simp only: c)
  from failed b v d have i2:
    "iterations (sdk_call deaf_device deaf_controller) = iterations deaf_controller \<and>
     depthMatrix (sdk_call deaf_device deaf_controller) = depthMatrix deaf_controller \<and>
     usersMatrix (sdk_call deaf_device deaf_controller) = usersMatrix deaf_controller"
    by blast
  from through e(1) demo_fourth_update have
    "resetCount demo_after4 = Suc (resetCount demo_after3)"
    "iterations demo_after4 =
       (if sdk demo_device (xnContext (reinit exact_fpu demo_device demo_after3)) = XN_STATUS_OK
        then 1 else 0) + (if XN_STATUS_OK = XN_STATUS_OK then 1 else 0)"
    by blast+
  then have i3: "resetCount demo_after4 = Suc (resetCount demo_after3)" "iterations demo_after4 = 2"
    by (simp_all add: demo_fields)
  from late f late_fourth_update have
    "resetCount ?L = Suc (resetCount late_after3)"
    "iterations ?L =
       (if sdk late_device (xnContext (reinit exact_fpu late_device late_after3)) = XN_STATUS_OK
        then 1 else 0) + (if (7 :: XnStatus) = XN_STATUS_OK then 1 else 0)"
    "(7 :: XnStatus) \<noteq> XN_STATUS_OK \<longrightarrow>
       depthMatrix ?L =
         (if sdk late_device (xnContext (reinit exact_fpu late_device late_after3)) = XN_STATUS_OK
          then depthMatrix (frame_done exact_fpu late_device
                 (reinit exact_fpu late_device late_after3)) else zeros 480 640) \<and>
       usersMatrix ?L =
         (if sdk late_device (xnContext (reinit exact_fpu late_device late_after3)) = XN_STATUS_OK
          then usersMatrix (frame_done exact_fpu late_device
                 (reinit exact_fpu late_device late_after3)) else zeros 480 640)"
    by blast+
  then have i4: "resetCount ?L = Suc (resetCount late_after3)" "iterations ?L = 1"
    "depthMatrix ?L = depthMatrix (frame_done exact_fpu late_device
       (reinit exact_fpu late_device late_after3))"
    "usersMatrix ?L = usersMatrix (frame_done exact_fpu late_device
       (reinit exact_fpu late_device late_after3))"
    using d by (simp_all only: w if_True if_False simp_thms add_0_right)
  from a b c' d u v i1 i2 e f demo_fourth_update late_fourth_update i3 i4 show ?thesis
    by blast
qed

text \<open>
  The claim C6 as stated fails on the path through \<^verbatim>\<open>reset()\<close>: after three calls with
  an iteration limit of 2 the counter is 3, and the fourth call, which succeeds, leaves
  it at 2, not at 4.
\<close>

theorem update_after_reset_counterexample:
  "run 1 exact_fpu demo_device [Update, Update, Update] demo_controller = Some (Inr demo_after3) \<and>
   update 3 exact_fpu demo_device demo_after3 = Some (Inr (XN_STATUS_OK, demo_after4)) \<and>
   iterations demo_after3 = 3 \<and> iterations demo_after4 = 2 \<and>
   iterations demo_after4 \<noteq> iterations demo_after3 + 1"
  using demo_three_updates demo_fourth_update
  by (simp add: demo_after3_fields demo_after4_fields)

section \<open>The periodic reset\<close>

lemma schedule_bound:
  fixes M k :: nat
  assumes "1 \<le> M"
  shows "(if k < M + 2 then k else 2 + (k - 2) mod M) \<le> M + 1"
proof (cases "k < M + 2")
  case True
  then show ?thesis by simp
next
  case False
  have "(k - 2) mod M < M" using assms by simp
  with False show ?thesis by simp
qed

lemma schedule_step:
  fixes M k :: nat
  assumes "1 \<le> M" "(if k < M + 2 then k else 2 + (k - 2) mod M) \<le> M"
  shows "(if Suc k < M + 2 then Suc k else 2 + (Suc k - 2) mod M) =
           Suc (if k < M + 2 then k else 2 + (k - 2) mod M)"
    and "(if Suc k < M + 2 then 0 else (Suc k - 2) div M) =
           (if k < M + 2 then 0 else (k - 2) div M)"
proof -
  show "(if Suc k < M + 2 then Suc k else 2 + (Suc k - 2) mod M) =
           Suc (if k < M + 2 then k else 2 + (k - 2) mod M)"
  proof (cases "k < M + 2")
    case True
    with assms(2) show ?thesis by simp
  next
    case False
    define j where "j = k - 2"
    with False have k: "k = Suc (Suc j)" by simp
    from False assms(2) have "Suc (j mod M) \<noteq> M" by (simp add: j_def)
    moreover have "M \<le> j" using False k by simp
    ultimately show ?thesis by (simp add: k mod_Suc)
  qed
  show "(if Suc k < M + 2 then 0 else (Suc k - 2) div M) =
           (if k < M + 2 then 0 else (k - 2) div M)"
  proof (cases "k < M + 2")
    case True
    with assms(2) show ?thesis by simp
  next
    case False
    define j where "j = k - 2"
    with False have k: "k = Suc (Suc j)" by simp
    from False assms(2) have "Suc (j mod M) \<noteq> M" by (simp add: j_def)
    moreover have "M \<le> j" using False k by simp
    ultimately show ?thesis by (simp add: k div_Suc mod_Suc)
  qed
qed

lemma schedule_reset:
  fixes M k :: nat
  assumes "1 \<le> M" "(if k < M + 2 then k else 2 + (k - 2) mod M) = M + 1"
  shows "(if Suc k < M + 2 then Suc k else 2 + (Suc k - 2) mod M) = 2"
    and "(if Suc k < M + 2 then 0 else (Suc k - 2) div M) =
           Suc (if k < M + 2 then 0 else (k - 2) div M)"
proof -
  show "(if Suc k < M + 2 then Suc k else 2 + (Suc k - 2) mod M) = 2"
  proof (cases "k < M + 2")
    case True
    with assms(2) have "k = M + 1" by simp
    then show ?thesis by simp
  next
    case False
    define j where "j = k - 2"
    with False have k: "k = Suc (Suc j)" by simp
    from False assms(2) have "Suc (j mod M) = M" by (simp add: j_def)
    moreover have "M \<le> j" using False k by simp
    ultimately show ?thesis by (simp add: k mod_Suc)
  qed
  show "(if Suc k < M + 2 then 0 else (Suc k - 2) div M) =
           Suc (if k < M + 2 then 0 else (k - 2) div M)"
  proof (cases "k < M + 2")
    case True
    with assms have "k = M + 1" by simp
    with assms(1) show ?thesis by simp
  next
    case False
    define j where "j = k - 2"
    with False have k: "k = Suc (Suc j)" by simp
    from False assms(2) have "Suc (j mod M) = M" by (simp add: j_def)
    moreover have "M \<le> j" using False k by simp
    ultimately show ?thesis by (simp add: k div_Suc mod_Suc)
  qed
qed

lemma sint_of_nat_small:
  fixes j :: nat
  assumes "j < 2 ^ 31"
  shows "sint (of_nat j :: 32 word) = int j"
proof -
  have "int j < 2 ^ 31" using assms by (metis of_nat_less_iff of_nat_numeral of_nat_power)
  moreover have "- (2 ^ 31) \<le> (0::int)" by simp
  then have "- (2 ^ 31) \<le> int j" by (rule order_trans) simp
  ultimately have "signed_take_bit 31 (int j) = int j"
    by (intro signed_take_bit_int_eq_self) simp_all
  then show ?thesis by (simp add: signed_of_nat)
qed

lemma sless_of_nat:
  fixes a b :: nat
  assumes "a < 2 ^ 31" "b < 2 ^ 31"
  shows "(of_nat a :: 32 word) <s of_nat b \<longleftrightarrow> a < b"
  using assms by (simp add: word_sless_alt sint_of_nat_small)

lemma run_snoc:
  "run n ops dev (cs @ [c]) s =
     (case run n ops dev cs s of
        None \<Rightarrow> None | Some (Inl e) \<Rightarrow> Some (Inl e) | Some (Inr t) \<Rightarrow> call_step n ops dev c t)"
  by (induction cs arbitrary: s) (auto split: option.splits sum.splits)

lemma update_all_ok:
  assumes "\<And>k. sdk dev k = XN_STATUS_OK" "\<not> maxUsers t <s 0" "\<not> maxIterate t <s 0"
  shows "update (Suc (Suc (Suc n))) ops dev t =
           Some (Inr (XN_STATUS_OK,
             if maxIterate t <s iterations t
             then frame_done ops dev (frame_done ops dev (reinit ops dev t))
             else frame_done ops dev t))"
proof (cases "maxIterate t <s iterations t")
  case True
  then show ?thesis
    using update_reset_ok [OF True assms(3,2) assms(1) assms(1), where ops = ops and n = n] by simp
next
  case False
  then show ?thesis
    using update_noreset_ok [OF False assms(1) assms(2), where n = "Suc (Suc n)" and ops = ops] by simp
qed

lemma reset_all_ok:
  assumes "\<And>k. sdk dev k = XN_STATUS_OK" "\<not> maxUsers t <s 0" "\<not> maxIterate t <s 0"
  shows "reset (Suc (Suc n)) ops dev t =
           Some (Inr (XN_STATUS_OK, frame_done ops dev (reinit ops dev t)))"
  using reset_ok [OF assms(3) assms(1) assms(2)] .

text \<open>The counter and the number of resets after \<open>k\<close> successful calls of \<^verbatim>\<open>update()\<close>.\<close>

lemma updates_schedule:
  fixes M :: nat
  assumes ok: "\<And>j. sdk dev j = XN_STATUS_OK" and users: "\<not> u <s 0"
    and M: "1 \<le> M" "M < 2 ^ 31 - 1"
  shows "\<exists>t. run 3 ops dev (replicate k Update) (new_KinectController ops dev u (of_nat M) d a) =
               Some (Inr t) \<and>
             maxUsers t = u \<and> maxIterate t = of_nat M \<and>
             resetCount t = (if k < M + 2 then 0 else (k - 2) div M) \<and>
             iterations t = of_nat (if k < M + 2 then k else 2 + (k - 2) mod M)"
proof (induction k)
  case 0
  show ?case by (simp add: new_fields)
next
  case (Suc k)
  let ?it = "\<lambda>k. if k < M + 2 then k else 2 + (k - 2) mod M"
  let ?rc = "\<lambda>k. if k < M + 2 then 0 else (k - 2) div M"
  from Suc.IH obtain t where
    r: "run 3 ops dev (replicate k Update) (new_KinectController ops dev u (of_nat M) d a) =
          Some (Inr t)" and
    t: "maxUsers t = u" "maxIterate t = of_nat M" "resetCount t = ?rc k"
       "iterations t = of_nat (?it k)"
    by blast
  have M31: "M < 2 ^ 31" using M(2) by simp
  have bound: "?it k \<le> M + 1" using schedule_bound [OF M(1)] .
  then have it31: "?it k < 2 ^ 31" using M(2) by linarith
  have "\<not> (of_nat M :: 32 word) <s 0"
    using M31 by (simp add: word_sless_alt sint_of_nat_small)
  then have nonneg: "\<not> maxIterate t <s 0"
    unfolding t .
  have due: "maxIterate t <s iterations t \<longleftrightarrow> M < ?it k"
    unfolding t using M31 it31 by (rule sless_of_nat)
  let ?t' = "if maxIterate t <s iterations t
             then frame_done ops dev (frame_done ops dev (reinit ops dev t))
             else frame_done ops dev t"
  have u: "update 3 ops dev t = Some (Inr (XN_STATUS_OK, ?t'))"
    unfolding numeral_3_eq_3
    by (rule update_all_ok [OF ok _ nonneg]) (simp add: t users)
  have "replicate (Suc k) Update = replicate k Update @ [Update]"
    by (simp add: replicate_append_same)
  then have run: "run 3 ops dev (replicate (Suc k) Update)
          (new_KinectController ops dev u (of_nat M) d a) = Some (Inr ?t')"
    by (simp only: run_snoc r u call_step.simps option.case sum.case snd_conv)
  have cfg: "maxUsers ?t' = u" "maxIterate ?t' = of_nat M"
    by (simp_all add: frame_done_fields reinit_fields t)
  have sched: "resetCount ?t' = ?rc (Suc k) \<and> iterations ?t' = of_nat (?it (Suc k))"
  proof (cases "M < ?it k")
    case True
    with bound have eq: "?it k = M + 1" by linarith
    from True due have "maxIterate t <s iterations t" by simp
    then show ?thesis
      using schedule_reset [OF M(1) eq]
      by (simp only: if_True frame_done_fields reinit_fields t) simp
  next
    case False
    then have le: "?it k \<le> M" by simp
    from False due have "\<not> maxIterate t <s iterations t" by simp
    then show ?thesis
      using schedule_step [OF M(1) le]
      by (simp only: if_False frame_done_fields t) simp
  qed
  from run cfg sched show ?case by blast
qed

text \<open>
  C2, as amended: with every call of the sensor library succeeding, a user count that
  is not negative and an iteration limit \<open>M\<close> of at least 1 and at most
  \<open>2147483646\<close> (so that \<open>M + 1\<close> is still an \<^verbatim>\<open>int\<close>), the calls of \<^verbatim>\<open>update()\<close>
  all return, and after \<open>k\<close> of them: if \<open>k < M + 2\<close> no reset has occurred and the
  counter is \<open>k\<close>; otherwise \<open>(k - 2) div M\<close> resets have occurred and the counter is
  \<open>2 + (k - 2) mod M\<close>. So the first reset occurs in call \<open>M + 2\<close> and from then on one
  in every \<open>M\<close> calls. For \<open>M = 2\<close>: after 3 calls no reset and a counter of 3, after 4
  calls one reset and a counter of 2. The counter is 0 when \<^verbatim>\<open>init()\<close> returns, 1 when
  \<^verbatim>\<open>reset()\<close> returns (it has run one \<^verbatim>\<open>update()\<close>), and 2 when the \<^verbatim>\<open>update()\<close> that
  ran the reset returns.
\<close>

theorem reset_schedule:
  fixes M :: nat
  assumes "\<forall>j. sdk dev j = XN_STATUS_OK" and "\<not> u <s 0" and "1 \<le> M" and "M < 2 ^ 31 - 1"
  shows "map_option resetCount (final_state (run 3 ops dev (replicate k Update)
           (new_KinectController ops dev u (of_nat M) d a))) =
           Some (if k < M + 2 then 0 else (k - 2) div M) \<and>
         map_option iterations (final_state (run 3 ops dev (replicate k Update)
           (new_KinectController ops dev u (of_nat M) d a))) =
           Some (of_nat (if k < M + 2 then k else 2 + (k - 2) mod M)) \<and>
         iterations (snd (init ops dev t)) = 0 \<and>
         (\<not> maxUsers t <s 0 \<longrightarrow> \<not> maxIterate t <s 0 \<longrightarrow>
            map_option iterations (final_state (run 2 ops dev [Reset] t)) = Some 1 \<and>
            map_option resetCount (final_state (run 2 ops dev [Reset] t)) =
              Some (Suc (resetCount t)))"
proof -
  have ok: "\<And>j. sdk dev j = XN_STATUS_OK" using assms(1) by simp
  from updates_schedule [OF ok assms(2,3,4), of ops k d a] obtain t' where
    "run 3 ops dev (replicate k Update) (new_KinectController ops dev u (of_nat M) d a) =
       Some (Inr t')"
    "resetCount t' = (if k < M + 2 then 0 else (k - 2) div M)"
    "iterations t' = of_nat (if k < M + 2 then k else 2 + (k - 2) mod M)"
    by blast
  then have A: "map_option resetCount (final_state (run 3 ops dev (replicate k Update)
           (new_KinectController ops dev u (of_nat M) d a))) =
           Some (if k < M + 2 then 0 else (k - 2) div M)"
    "map_option iterations (final_state (run 3 ops dev (replicate k Update)
           (new_KinectController ops dev u (of_nat M) d a))) =
           Some (of_nat (if k < M + 2 then k else 2 + (k - 2) mod M))"
    by (simp_all add: final_state_def)
  have C: "map_option iterations (final_state (run 2 ops dev [Reset] t)) = Some 1 \<and>
      map_option resetCount (final_state (run 2 ops dev [Reset] t)) = Some (Suc (resetCount t))"
    if "\<not> maxUsers t <s 0" "\<not> maxIterate t <s 0"
  proof -
    have "reset 2 ops dev t = Some (Inr (XN_STATUS_OK, frame_done ops dev (reinit ops dev t)))"
      unfolding numeral_2_eq_2 using ok that by (rule reset_all_ok)
    then show ?thesis
      by (simp add: final_state_def frame_done_fields reinit_fields)
  qed
  from A C show ?thesis by (simp add: init_fields)
qed

theorem reset_schedule_witness:
  "(\<forall>j. sdk demo_device j = XN_STATUS_OK) \<and> \<not> (6 :: 32 word) <s 0 \<and>
   (1::nat) \<le> 2 \<and> (2::nat) < 2 ^ 31 - 1 \<and>
   map_option resetCount (final_state (run 3 exact_fpu demo_device (replicate 3 Update)
     (new_KinectController exact_fpu demo_device 6 (of_nat 2) 6000 10000))) = Some 0 \<and>
   map_option iterations (final_state (run 3 exact_fpu demo_device (replicate 3 Update)
     (new_KinectController exact_fpu demo_device 6 (of_nat 2) 6000 10000))) = Some 3 \<and>
   map_option resetCount (final_state (run 3 exact_fpu demo_device (replicate 4 Update)
     (new_KinectController exact_fpu demo_device 6 (of_nat 2) 6000 10000))) = Some 1 \<and>
   map_option iterations (final_state (run 3 exact_fpu demo_device (replicate 4 Update)
     (new_KinectController exact_fpu demo_device 6 (of_nat 2) 6000 10000))) = Some 2 \<and>
   \<not> maxUsers demo_after3 <s 0 \<and> \<not> maxIterate demo_after3 <s 0 \<and>
   map_option iterations (final_state (run 2 exact_fpu demo_device [Reset] demo_after3)) = Some 1 \<and>
   map_option resetCount (final_state (run 2 exact_fpu demo_device [Reset] demo_after3)) = Some 1"
proof -
  have h: "\<forall>j. sdk demo_device j = XN_STATUS_OK" "\<not> (6 :: 32 word) <s 0"
    "(1::nat) \<le> 2" "(2::nat) < 2 ^ 31 - 1"
    by (simp_all add: demo_fields word_sless_alt)
  have g: "\<not> maxUsers demo_after3 <s 0" "\<not> maxIterate demo_after3 <s 0"
    by (simp_all add: demo_after3_fields word_sless_alt)
  have e: "(if (3::nat) < 2 + 2 then 0 else (3 - 2) div 2) = (0::nat)"
    "(of_nat (if (3::nat) < 2 + 2 then 3 else 2 + (3 - 2) mod 2) :: 32 word) = 3"
    "(if (4::nat) < 2 + 2 then 0 else (4 - 2) div 2) = (1::nat)"
    "(of_nat (if (4::nat) < 2 + 2 then 4 else 2 + (4 - 2) mod 2) :: 32 word) = 2"
    "Suc (resetCount demo_after3) = 1"
    by (simp_all add: demo_after3_fields)
  note three = reset_schedule [OF h, where k = 3 and ops = exact_fpu and d = 6000 and a = 10000
      and t = demo_after3, unfolded e]
  note four = reset_schedule [OF h, where k = 4 and ops = exact_fpu and d = 6000 and a = 10000
      and t = demo_after3, unfolded e]
  from three four h g show ?thesis by blast
qed

text \<open>
  The claim C2 as stated fails: with an iteration limit of 2 and three successful calls
  of \<^verbatim>\<open>update()\<close>, no reset has occurred and the counter is 3.
\<close>

theorem three_updates_counterexample:
  "run 1 exact_fpu demo_device [Update, Update, Update]
     (new_KinectController exact_fpu demo_device 6 2 6000 10000) = Some (Inr demo_after3) \<and>
   resetCount demo_after3 = 0 \<and> iterations demo_after3 = 3 \<and>
   \<not> (resetCount demo_after3 = 1 \<and> iterations demo_after3 = 1)"
  using demo_three_updates
  by (simp add: demo_after3_fields demo_controller_def)

end
